theory Spec2Isabelle
  imports Complex_Main "HOL-Library.Product_Lexorder" "HOL-Library.Char_ord"
    "HOL-Library.List_Lexorder"
begin

section \<open>The data model of the COVID-19 tracker notebook\<close>

text \<open>
  The notebook \<^verbatim>\<open>COVID-19.ipynb\<close> is a linear pandas script over one table of
  observations. This theory embeds the table operations the notebook calls, with the
  behaviour pandas documents for them, and the notebook's cells from ``3. Data Cleaning''
  on as functions of the loaded table \<open>df\<close>.

  A cell of a numeric column is a float64. The embedding keeps the three special values
  apart from the finite ones, because pandas treats exactly \<open>NaN\<close> as the null value
  (\<^verbatim>\<open>isna(inf)\<close> is false). Finite arithmetic is exact: rounding, overflow to an
  infinity, underflow and the sign of zero are not modelled.
\<close>

datatype fval = NaN | NInf | Fin real | PInf

definition isna :: "fval \<Rightarrow> bool" where
  "isna v = (v = NaN)"

definition isinf :: "fval \<Rightarrow> bool" where
  "isinf v = (v = PInf \<or> v = NInf)"

text \<open>IEEE division: \<open>x / 0\<close> is an infinity of the sign of \<open>x\<close>, and \<open>0 / 0\<close> and
  \<open>inf / inf\<close> are \<open>NaN\<close>; pandas raises nothing on a zero denominator.\<close>

fun fdiv :: "fval \<Rightarrow> fval \<Rightarrow> fval" where
  "fdiv NaN _ = NaN"
| "fdiv _ NaN = NaN"
| "fdiv (Fin a) (Fin b) =
     (if b = 0 then (if a = 0 then NaN else if 0 < a then PInf else NInf)
      else Fin (a / b))"
| "fdiv (Fin a) PInf = Fin 0"
| "fdiv (Fin a) NInf = Fin 0"
| "fdiv PInf (Fin b) = (if 0 \<le> b then PInf else NInf)"
| "fdiv NInf (Fin b) = (if 0 \<le> b then NInf else PInf)"
| "fdiv PInf PInf = NaN"
| "fdiv PInf NInf = NaN"
| "fdiv NInf PInf = NaN"
| "fdiv NInf NInf = NaN"

fun fmul :: "fval \<Rightarrow> fval \<Rightarrow> fval" where
  "fmul NaN _ = NaN"
| "fmul _ NaN = NaN"
| "fmul (Fin a) (Fin b) = Fin (a * b)"
| "fmul (Fin a) PInf = (if a = 0 then NaN else if 0 < a then PInf else NInf)"
| "fmul (Fin a) NInf = (if a = 0 then NaN else if 0 < a then NInf else PInf)"
| "fmul PInf (Fin b) = (if b = 0 then NaN else if 0 < b then PInf else NInf)"
| "fmul NInf (Fin b) = (if b = 0 then NaN else if 0 < b then NInf else PInf)"
| "fmul PInf PInf = PInf"
| "fmul PInf NInf = NInf"
| "fmul NInf PInf = NInf"
| "fmul NInf NInf = PInf"

text \<open>The comparison \<^verbatim>\<open>v > 0\<close>; it is false for \<open>NaN\<close>.\<close>

fun fpos :: "fval \<Rightarrow> bool" where
  "fpos (Fin a) = (0 < a)"
| "fpos PInf = True"
| "fpos _ = False"

text \<open>
  An observation is one row of the table: its location, ISO code and date, and its numeric
  columns by name. Location and date are the key of an observation and are present in every
  row; \<open>iso_code\<close> may be missing. The date is a day number.
\<close>

record row =
  location :: string
  iso_code :: "string option"
  date :: int
  num :: "string \<Rightarrow> fval"

text \<open>A DataFrame: the names of its numeric columns and its rows in table order. The value
  \<open>num r c\<close> of a column \<open>c\<close> the frame does not have is never read.\<close>

record frame =
  columns :: "string list"
  rows :: "row list"

datatype py_error = KeyError string | ValueError string

definition and_then :: "py_error + 'a \<Rightarrow> ('a \<Rightarrow> py_error + 'b) \<Rightarrow> py_error + 'b" where
  "and_then m k = (case m of Inl e \<Rightarrow> Inl e | Inr x \<Rightarrow> k x)"

text \<open>\<^verbatim>\<open>df[c]\<close>: the column as a series, or \<^verbatim>\<open>KeyError\<close>.\<close>

definition getcol :: "string \<Rightarrow> frame \<Rightarrow> py_error + fval list" where
  "getcol c f = (if c \<in> set (columns f) then Inr (map (\<lambda>r. num r c) (rows f))
                 else Inl (KeyError c))"

definition set_num :: "string \<Rightarrow> row \<Rightarrow> fval \<Rightarrow> row" where
  "set_num c r v = r\<lparr>num := (num r)(c := v)\<rparr>"

text \<open>\<^verbatim>\<open>df[c] = series\<close>: the series is aligned with the frame's index, so it has one
  value per row; a new column is appended to the column list.\<close>

definition assign :: "string \<Rightarrow> fval list \<Rightarrow> frame \<Rightarrow> frame" where
  "assign c vs f =
     \<lparr>columns = (if c \<in> set (columns f) then columns f else columns f @ [c]),
      rows = map2 (set_num c) (rows f) vs\<rparr>"

subsection \<open>Configuration\<close>

definition countries_of_interest :: "string list" where
  "countries_of_interest =
     [''United States'', ''India'', ''Brazil'', ''United Kingdom'', ''Russia'',
      ''France'', ''Germany'', ''South Africa'', ''Kenya'', ''China'']"

definition continents :: "string list" where
  "continents =
     [''World'', ''Asia'', ''Europe'', ''North America'', ''South America'', ''Africa'',
      ''Oceania'', ''European Union'', ''High income'', ''Upper middle income'',
      ''Lower middle income'', ''Low income'']"

definition key_metrics :: "string list" where
  "key_metrics =
     [''total_cases'', ''new_cases'', ''total_deaths'', ''new_deaths'',
      ''total_vaccinations'', ''people_vaccinated'', ''people_fully_vaccinated'']"

text \<open>\<^verbatim>\<open>df[df['location'].isin(names)]\<close> and \<^verbatim>\<open>df[~df['location'].isin(names)]\<close>.\<close>

definition isin :: "string list \<Rightarrow> frame \<Rightarrow> frame" where
  "isin names f = f\<lparr>rows := filter (\<lambda>r. location r \<in> set names) (rows f)\<rparr>"

definition not_isin :: "string list \<Rightarrow> frame \<Rightarrow> frame" where
  "not_isin names f = f\<lparr>rows := filter (\<lambda>r. location r \<notin> set names) (rows f)\<rparr>"

subsection \<open>Derived ratios\<close>

text \<open>\<^verbatim>\<open>(df[a] / df[b]) * 100\<close>, row by row.\<close>

definition ratio_pct :: "fval \<Rightarrow> fval \<Rightarrow> fval" where
  "ratio_pct a b = fmul (fdiv a b) (Fin 100)"

definition add_ratio_column :: "string \<Rightarrow> string \<Rightarrow> string \<Rightarrow> frame \<Rightarrow> py_error + frame" where
  "add_ratio_column c a b f =
     and_then (getcol a f) (\<lambda>xs.
     and_then (getcol b f) (\<lambda>ys.
       Inr (assign c (map2 ratio_pct xs ys) f)))"

text \<open>\<^verbatim>\<open>filtered_df['death_rate'] = (filtered_df['total_deaths'] / filtered_df['total_cases']) * 100\<close>
  and the same expression stored as \<^verbatim>\<open>cfr\<close>.\<close>

definition add_death_rate :: "frame \<Rightarrow> py_error + frame" where
  "add_death_rate f = add_ratio_column ''death_rate'' ''total_deaths'' ''total_cases'' f"

definition add_cfr :: "frame \<Rightarrow> py_error + frame" where
  "add_cfr f = add_ratio_column ''cfr'' ''total_deaths'' ''total_cases'' f"

subsection \<open>Forward fill within each location\<close>

text \<open>\<^verbatim>\<open>x.fillna(method='ffill')\<close> on one series: a null takes the last value seen that
  is not null, and stays null while none has been seen.\<close>

fun ffill_from :: "fval \<Rightarrow> fval list \<Rightarrow> fval list" where
  "ffill_from prev [] = []"
| "ffill_from prev (v # vs) =
     (if isna v then prev # ffill_from prev vs else v # ffill_from v vs)"

definition ffill :: "fval list \<Rightarrow> fval list" where
  "ffill xs = ffill_from NaN xs"

text \<open>
  \<^verbatim>\<open>df.groupby('location')[c].transform(fn)\<close> splits the column by location, keeping
  table order inside each group, applies \<open>fn\<close> to each group's series, and puts the results
  back at the rows they came from. No step of it sorts by date.
\<close>

definition group_rows :: "string \<Rightarrow> row list \<Rightarrow> row list" where
  "group_rows g rs = filter (\<lambda>r. location r = g) rs"

definition group_series :: "string \<Rightarrow> string \<Rightarrow> row list \<Rightarrow> fval list" where
  "group_series c g rs = map (\<lambda>r. num r c) (group_rows g rs)"

definition rank_in_group :: "row list \<Rightarrow> nat \<Rightarrow> nat" where
  "rank_in_group rs i = length (group_rows (location (rs ! i)) (take i rs))"

definition broadcast :: "(string \<Rightarrow> fval list) \<Rightarrow> row list \<Rightarrow> fval list" where
  "broadcast res rs =
     map (\<lambda>i. res (location (rs ! i)) ! rank_in_group rs i) [0..<length rs]"

definition groupby_transform :: "(fval list \<Rightarrow> fval list) \<Rightarrow> string \<Rightarrow> row list \<Rightarrow> fval list" where
  "groupby_transform fn c rs = broadcast (\<lambda>g. fn (group_series c g rs)) rs"

text \<open>The cleaning loop:
  \<^verbatim>\<open>for metric in key_metrics: if metric in filtered_df.columns: filtered_df[metric] = ...\<close>\<close>

definition ffill_metric :: "string \<Rightarrow> frame \<Rightarrow> frame" where
  "ffill_metric metric f =
     (if metric \<in> set (columns f)
      then assign metric (groupby_transform ffill metric (rows f)) f
      else f)"

definition ffill_key_metrics :: "frame \<Rightarrow> frame" where
  "ffill_key_metrics f = fold ffill_metric key_metrics f"

subsection \<open>Rolling mean\<close>

text \<open>
  \<^verbatim>\<open>x.rolling(w, min_periods=mp).mean()\<close>: the window at position \<open>i\<close> (from 0) holds the
  observations \<open>i + 1 - w, ..., i\<close> that exist. pandas turns infinities into nulls before
  the window functions run, drops the nulls of a window, and yields null when fewer than
  \<open>mp\<close> observations are left.
\<close>

definition window :: "nat \<Rightarrow> nat \<Rightarrow> 'a list \<Rightarrow> 'a list" where
  "window w i xs = drop (i + 1 - w) (take (i + 1) xs)"

fun finite_of :: "fval \<Rightarrow> real option" where
  "finite_of (Fin a) = Some a"
| "finite_of _ = None"

definition valid_obs :: "fval list \<Rightarrow> real list" where
  "valid_obs ws = List.map_filter finite_of ws"

definition mean_valid :: "nat \<Rightarrow> fval list \<Rightarrow> fval" where
  "mean_valid mp ws =
     (let vs = valid_obs ws
      in if length vs < mp \<or> vs = [] then NaN else Fin (sum_list vs / real (length vs)))"

definition rolling_mean :: "nat \<Rightarrow> nat \<Rightarrow> fval list \<Rightarrow> fval list" where
  "rolling_mean w mp xs = map (\<lambda>i. mean_valid mp (window w i xs)) [0..<length xs]"

text \<open>\<^verbatim>\<open>filtered_df['new_cases_smoothed'] = filtered_df.groupby('location')['new_cases']
  .transform(lambda x: x.rolling(7, min_periods=1).mean())\<close>\<close>

definition add_smoothed :: "frame \<Rightarrow> py_error + frame" where
  "add_smoothed f =
     (if ''new_cases'' \<in> set (columns f)
      then Inr (assign ''new_cases_smoothed''
                  (groupby_transform (rolling_mean 7 1) ''new_cases'' (rows f)) f)
      else Inl (KeyError ''Column not found: new_cases''))"

subsection \<open>Pivot\<close>

text \<open>
  \<^verbatim>\<open>df.pivot(index='date', columns='location', values=c)\<close>: the values column is read
  first (\<^verbatim>\<open>KeyError\<close>), then the series indexed by (date, location) is unstacked, which
  raises \<^verbatim>\<open>ValueError\<close> when a pair occurs twice. The result has the sorted dates as
  index, the sorted locations as columns, and null where a pair has no row.
\<close>

record pivot_table =
  p_index :: "int list"
  p_columns :: "string list"
  p_cell :: "int \<Rightarrow> string \<Rightarrow> fval"

definition row_key :: "row \<Rightarrow> int \<times> string" where
  "row_key r = (date r, location r)"

definition pivot :: "string \<Rightarrow> frame \<Rightarrow> py_error + pivot_table" where
  "pivot c f =
     (if c \<notin> set (columns f) then Inl (KeyError c)
      else if \<not> distinct (map row_key (rows f))
      then Inl (ValueError ''Index contains duplicate entries, cannot reshape'')
      else Inr \<lparr>p_index = sort (remdups (map date (rows f))),
                p_columns = sort (remdups (map location (rows f))),
                p_cell = (\<lambda>d g. case filter (\<lambda>r. row_key r = (d, g)) (rows f) of
                                   [] \<Rightarrow> NaN
                                 | r # _ \<Rightarrow> num r c)\<rparr>)"

subsection \<open>Latest snapshot\<close>

text \<open>
  \<^verbatim>\<open>df.sort_values('date').groupby('location').last().reset_index()\<close>. The sort is taken
  stable; pandas promises no order among rows of the same date, and where a location has
  each date once its rows come out in date order under any sort. \<^verbatim>\<open>GroupBy.last\<close>
  computes, for every column on its own, the last entry of the group that is not null; the
  groups come out sorted by location.
\<close>

definition sort_values_date :: "row list \<Rightarrow> row list" where
  "sort_values_date rs = sort_key date rs"

definition last_valid :: "fval list \<Rightarrow> fval" where
  "last_valid xs = (let vs = filter (\<lambda>v. \<not> isna v) xs in if vs = [] then NaN else last vs)"

definition last_present :: "'a option list \<Rightarrow> 'a option" where
  "last_present xs = (let vs = filter (\<lambda>v. v \<noteq> None) xs in if vs = [] then None else last vs)"

definition group_keys :: "row list \<Rightarrow> string list" where
  "group_keys rs = sort (remdups (map location rs))"

definition last_of_group :: "string \<Rightarrow> row list \<Rightarrow> row" where
  "last_of_group g rs =
     (let grp = group_rows g rs
      in \<lparr>location = g,
          iso_code = last_present (map iso_code grp),
          date = last (map date grp),
          num = (\<lambda>c. last_valid (map (\<lambda>r. num r c) grp))\<rparr>)"

definition groupby_last :: "row list \<Rightarrow> row list" where
  "groupby_last rs = map (\<lambda>g. last_of_group g rs) (group_keys rs)"

definition latest :: "frame \<Rightarrow> frame" where
  "latest f = f\<lparr>rows := groupby_last (sort_values_date (rows f))\<rparr>"

subsection \<open>Rankings\<close>

text \<open>
  \<^verbatim>\<open>sort_values(c, ascending=False)\<close>: descending, nulls last. Rows with equal values
  are kept in their previous order here; pandas promises no order among them. Then
  \<^verbatim>\<open>[['location', c]].head(5)\<close>.
\<close>

fun desc_key :: "fval \<Rightarrow> nat \<times> real" where
  "desc_key PInf = (0, 0)"
| "desc_key (Fin a) = (1, - a)"
| "desc_key NInf = (2, 0)"
| "desc_key NaN = (3, 0)"

definition sort_values_desc :: "string \<Rightarrow> frame \<Rightarrow> py_error + frame" where
  "sort_values_desc c f =
     (if c \<in> set (columns f)
      then Inr (f\<lparr>rows := sort_key (\<lambda>r. desc_key (num r c)) (rows f)\<rparr>)
      else Inl (KeyError c))"

definition top5 :: "string \<Rightarrow> frame \<Rightarrow> py_error + (string \<times> fval) list" where
  "top5 c f =
     and_then (sort_values_desc c f) (\<lambda>s.
       Inr (take 5 (map (\<lambda>r. (location r, num r c)) (rows s))))"

subsection \<open>Vaccination percentage\<close>

text \<open>\<^verbatim>\<open>df.loc[df['location'] == country, c] = values\<close>: a column the frame lacks is created
  null in every row first; then the rows of the country take the values.\<close>

definition ensure_column :: "string \<Rightarrow> frame \<Rightarrow> frame" where
  "ensure_column c f =
     (if c \<in> set (columns f) then f
      else \<lparr>columns = columns f @ [c], rows = map (\<lambda>r. set_num c r NaN) (rows f)\<rparr>)"

definition loc_assign :: "string \<Rightarrow> string \<Rightarrow> (row \<Rightarrow> fval) \<Rightarrow> frame \<Rightarrow> frame" where
  "loc_assign country c val f =
     (let f' = ensure_column c f
      in f'\<lparr>rows := map (\<lambda>r. if location r = country then set_num c r (val r) else r) (rows f')\<rparr>)"

text \<open>
  \<^verbatim>\<open>
  for country in countries_of_interest:
      country_data = filtered_df[filtered_df['location'] == country]
      if not country_data.empty and 'people_fully_vaccinated' in country_data.columns:
          latest_pop = country_data['population'].iloc[-1]
          if not pd.isna(latest_pop) and latest_pop > 0:
              filtered_df.loc[filtered_df['location'] == country, 'pct_vaccinated'] = (
                  filtered_df.loc[..., 'people_fully_vaccinated'] / latest_pop * 100)
  \<close>
  \<open>latest_pop\<close> is the population in the country's last row in table order.
\<close>

definition latest_pop :: "string \<Rightarrow> frame \<Rightarrow> fval" where
  "latest_pop country f = num (last (group_rows country (rows f))) ''population''"

definition pct_step :: "string \<Rightarrow> frame \<Rightarrow> py_error + frame" where
  "pct_step country f =
     (if group_rows country (rows f) \<noteq> [] \<and> ''people_fully_vaccinated'' \<in> set (columns f)
      then if ''population'' \<notin> set (columns f) then Inl (KeyError ''population'')
           else if \<not> isna (latest_pop country f) \<and> fpos (latest_pop country f)
           then Inr (loc_assign country ''pct_vaccinated''
                       (\<lambda>r. ratio_pct (num r ''people_fully_vaccinated'') (latest_pop country f)) f)
           else Inr f
      else Inr f)"

fun pct_loop :: "string list \<Rightarrow> frame \<Rightarrow> py_error + frame" where
  "pct_loop [] f = Inr f"
| "pct_loop (country # cs) f = and_then (pct_step country f) (pct_loop cs)"

definition add_pct_vaccinated :: "frame \<Rightarrow> py_error + frame" where
  "add_pct_vaccinated f = pct_loop countries_of_interest f"

subsection \<open>The notebook, cell by cell\<close>

text \<open>
  What a run shows: lines printed, figures shown (by title) and tables displayed. Drawing
  with matplotlib and seaborn is taken to succeed; only the two choropleth maps stand in
  \<^verbatim>\<open>try\<close> blocks. Their outcome is a parameter of the run: \<open>choropleth title data\<close> is
  \<open>None\<close> when \<^verbatim>\<open>px.choropleth(...)\<close> and \<^verbatim>\<open>fig.show()\<close> return, and \<open>Some msg\<close> when
  one of them raises an \<^verbatim>\<open>Exception\<close> whose text is \<open>msg\<close>.
\<close>

datatype event = Printed string | Figure string | Display "(string \<times> fval) list"

type_synonym renderer = "string \<Rightarrow> frame \<Rightarrow> string option"

record state =
  continent_df :: frame
  country_df :: frame
  filtered_df :: frame
  latest_global_data :: frame
  latest_data :: frame
  top_cases :: "(string \<times> fval) list"
  top_deaths :: "(string \<times> fval) list"
  top_vax :: "(string \<times> fval) list"
  outputs :: "event list"

definition error_text :: "py_error \<Rightarrow> string" where
  "error_text e = (case e of KeyError k \<Rightarrow> [CHR 0x27] @ k @ [CHR 0x27] | ValueError m \<Rightarrow> m)"

definition internet_hint :: string where
  "internet_hint =
     ''If you're running this notebook locally, you'll need an internet connection for Plotly maps.''"

text \<open>The handler of the first \<^verbatim>\<open>try\<close> block, and the block itself.\<close>

definition cases_map_failed :: "string \<Rightarrow> event list" where
  "cases_map_failed msg =
     [Printed (''Error creating cases choropleth: '' @ msg), Printed internet_hint]"

definition try_cases_map :: "renderer \<Rightarrow> frame \<Rightarrow> event list" where
  "try_cases_map choropleth lg =
     (case choropleth ''COVID-19 Total Cases per Million'' lg of
        None \<Rightarrow> [Figure ''COVID-19 Total Cases per Million'']
      | Some msg \<Rightarrow> cases_map_failed msg)"

text \<open>The second \<^verbatim>\<open>try\<close> block first stores \<^verbatim>\<open>vaccination_percentage\<close> in
  \<^verbatim>\<open>latest_global_data\<close>; a missing column there is caught by the same handler.\<close>

definition vax_map_failed :: "string \<Rightarrow> event list" where
  "vax_map_failed msg =
     [Printed (''Error creating vaccination choropleth: '' @ msg), Printed internet_hint]"

definition try_vax_map :: "renderer \<Rightarrow> frame \<Rightarrow> frame \<times> event list" where
  "try_vax_map choropleth lg =
     (case add_ratio_column ''vaccination_percentage'' ''people_fully_vaccinated''
             ''population'' lg of
        Inl e \<Rightarrow> (lg, vax_map_failed (error_text e))
      | Inr lg' \<Rightarrow>
          (lg', case choropleth ''COVID-19 Vaccination Rates (% of Population)'' lg' of
                  None \<Rightarrow> [Figure ''COVID-19 Vaccination Rates (% of Population)'']
                | Some msg \<Rightarrow> vax_map_failed msg))"

text \<open>Sections 3 to 5: cleaning, the line charts, death rate and vaccination percentage.
  The result is \<^verbatim>\<open>filtered_df\<close> as section 6 finds it.\<close>

definition sections_3_to_5 :: "frame \<Rightarrow> py_error + frame \<times> event list" where
  "sections_3_to_5 df =
     (let filtered0 = isin countries_of_interest df;
          filtered1 = ffill_key_metrics filtered0
      in and_then (pivot ''total_cases'' filtered1) (\<lambda>cases_pivot.
         and_then (pivot ''total_deaths'' filtered1) (\<lambda>deaths_pivot.
         and_then (add_smoothed filtered1) (\<lambda>filtered2.
         and_then (pivot ''new_cases_smoothed'' filtered2) (\<lambda>new_cases_pivot.
         and_then (add_death_rate filtered2) (\<lambda>filtered3.
         and_then (sort_values_desc ''death_rate'' (latest filtered3)) (\<lambda>death_bars.
         and_then (pivot ''people_fully_vaccinated'' filtered3) (\<lambda>vax_pivot.
         and_then (add_pct_vaccinated filtered3) (\<lambda>filtered4.
         and_then (pivot ''pct_vaccinated'' filtered4) (\<lambda>pct_pivot.
         and_then (sort_values_desc ''pct_vaccinated'' (latest filtered4)) (\<lambda>vax_bars.
           Inr (filtered4,
                [Printed ''Number of records per country:'',
                 Figure ''Total COVID-19 Cases Over Time'',
                 Figure ''Total COVID-19 Cases Over Time (Log Scale)'',
                 Figure ''Total COVID-19 Deaths Over Time'',
                 Figure ''Daily New COVID-19 Cases (7-day Rolling Average)'',
                 Figure ''COVID-19 Death Rate by Country (Latest Data)'',
                 Figure ''Percentage of Population Fully Vaccinated'',
                 Figure ''Latest COVID-19 Vaccination Rates by Country'']))))))))))))"

text \<open>Section 6: \<^verbatim>\<open>latest_global_data\<close> is computed from \<^verbatim>\<open>df\<close>, then the two maps.\<close>

definition section_6 :: "renderer \<Rightarrow> frame \<Rightarrow> frame \<times> event list" where
  "section_6 choropleth df =
     (let lg = latest df;
          out1 = try_cases_map choropleth lg;
          (lg', out2) = try_vax_map choropleth lg
      in (lg', out1 @ out2))"

text \<open>Sections 7 and 8: the case fatality rate and the three top-5 tables.\<close>

definition sections_7_to_8 :: "frame \<Rightarrow>
    py_error + frame \<times> frame \<times> (string \<times> fval) list \<times> (string \<times> fval) list \<times>
      (string \<times> fval) list \<times> event list" where
  "sections_7_to_8 filtered4 =
     and_then (add_cfr filtered4) (\<lambda>filtered5.
     and_then (pivot ''cfr'' filtered5) (\<lambda>cfr_pivot.
     (let ld = latest filtered5
      in and_then (top5 ''total_cases'' ld) (\<lambda>tc.
         and_then (top5 ''total_deaths'' ld) (\<lambda>td.
         and_then (top5 ''pct_vaccinated'' ld) (\<lambda>tv.
           Inr (filtered5, ld, tc, td, tv,
                [Figure ''COVID-19 Case Fatality Rate Over Time'',
                 Printed ''Top 5 Countries by Total Cases:'', Display tc,
                 Printed (CHR 0x0A # ''Top 5 Countries by Total Deaths:''), Display td,
                 Printed (CHR 0x0A # ''Top 5 Countries by Vaccination Rate:''), Display tv])))))))"

definition run :: "renderer \<Rightarrow> frame \<Rightarrow> py_error + state" where
  "run choropleth df =
     and_then (sections_3_to_5 df) (\<lambda>(filtered4, out_a).
     (let (lg, out_b) = section_6 choropleth df
      in and_then (sections_7_to_8 filtered4) (\<lambda>(filtered5, ld, tc, td, tv, out_c).
           Inr \<lparr>continent_df = isin continents df,
                country_df = not_isin continents df,
                filtered_df = filtered5,
                latest_global_data = lg,
                latest_data = ld,
                top_cases = tc, top_deaths = td, top_vax = tv,
                outputs = out_a @ out_b @ out_c\<rparr>)))"

subsection \<open>Auxiliary notions for stating the properties\<close>

text \<open>The values a series \<open>vs\<close>, aligned with the rows \<open>rs\<close>, has at the rows of one
  location.\<close>

definition group_values :: "string \<Rightarrow> row list \<Rightarrow> 'a list \<Rightarrow> 'a list" where
  "group_values g rs vs = map snd (filter (\<lambda>p. location (fst p) = g) (zip rs vs))"

definition last_valid_or :: "fval \<Rightarrow> fval list \<Rightarrow> fval" where
  "last_valid_or p xs = (let vs = filter (\<lambda>v. \<not> isna v) xs in if vs = [] then p else last vs)"

text \<open>A location's column in chronological order: its rows sorted by date.\<close>

definition chrono_series :: "string \<Rightarrow> string \<Rightarrow> row list \<Rightarrow> fval list" where
  "chrono_series c g rs = map (\<lambda>r. num r c) (sort_key date (group_rows g rs))"

text \<open>A column of the frame a step returns.\<close>

definition column_of :: "string \<Rightarrow> py_error + frame \<Rightarrow> py_error + fval list" where
  "column_of c res = and_then res (getcol c)"




text \<open>What a finished run holds in a table, read off for comparison.\<close>

definition table_of :: "(state \<Rightarrow> frame) \<Rightarrow> string list \<Rightarrow> py_error + state \<Rightarrow>
    py_error + (string \<times> int \<times> fval list) list" where
  "table_of sel cs res =
     and_then res (\<lambda>s. Inr (map (\<lambda>r. (location r, date r, map (num r) cs)) (rows (sel s))))"

text \<open>Orders on column values. \<open>fle a b\<close> is \<open>a \<le> b\<close> on floats that are not null.
  A column is in descending order with nulls last when no value stands before a greater
  one and no null stands before a value; it is strictly descending when every value is
  greater than all that follow.\<close>

fun fle :: "fval \<Rightarrow> fval \<Rightarrow> bool" where
  "fle NaN _ = False"
| "fle _ NaN = False"
| "fle NInf _ = True"
| "fle _ PInf = True"
| "fle (Fin a) (Fin b) = (a \<le> b)"
| "fle PInf _ = False"
| "fle _ NInf = False"

definition stands_before :: "fval \<Rightarrow> fval \<Rightarrow> bool" where
  "stands_before a b = (isna b \<or> (\<not> isna a \<and> fle b a))"

definition descending :: "fval list \<Rightarrow> bool" where
  "descending vs = sorted_wrt stands_before vs"

definition strictly_descending :: "fval list \<Rightarrow> bool" where
  "strictly_descending vs = sorted_wrt (\<lambda>a b. fle b a \<and> \<not> fle a b) vs"

text \<open>The three top-5 tables of a finished run.\<close>

definition tops_of :: "py_error + state \<Rightarrow>
    py_error + (string \<times> fval) list \<times> (string \<times> fval) list \<times> (string \<times> fval) list" where
  "tops_of res = and_then res (\<lambda>s. Inr (top_cases s, top_deaths s, top_vax s))"

text \<open>The test the vaccination loop makes for a country before it assigns.\<close>

definition qualifies :: "string \<Rightarrow> frame \<Rightarrow> bool" where
  "qualifies g f \<longleftrightarrow>
     group_rows g (rows f) \<noteq> [] \<and> ''people_fully_vaccinated'' \<in> set (columns f) \<and>
     \<not> isna (latest_pop g f) \<and> fpos (latest_pop g f)"

text \<open>A function on rows that keeps the key of a row and every column but \<open>c\<close>.\<close>

definition keeps_but :: "string \<Rightarrow> (row \<Rightarrow> row) \<Rightarrow> bool" where
  "keeps_but c h \<longleftrightarrow>
     (\<forall>r. location (h r) = location r \<and> date (h r) = date r \<and> iso_code (h r) = iso_code r \<and>
          (\<forall>c'. c' \<noteq> c \<longrightarrow> num (h r) c' = num r c'))"

text \<open>What the vaccination loop over the countries \<open>cs\<close> leaves in \<open>pct_vaccinated\<close> at a
  row of the table \<open>f\<close> it started from, and the column list it leaves.\<close>

definition pct_value :: "string list \<Rightarrow> frame \<Rightarrow> row \<Rightarrow> fval" where
  "pct_value cs f r =
     (if location r \<in> set cs \<and> qualifies (location r) f
      then ratio_pct (num r ''people_fully_vaccinated'') (latest_pop (location r) f)
      else if ''pct_vaccinated'' \<in> set (columns f) then num r ''pct_vaccinated''
      else if \<exists>g\<in>set cs. qualifies g f then NaN
      else num r ''pct_vaccinated'')"

definition pct_columns :: "string list \<Rightarrow> frame \<Rightarrow> string list" where
  "pct_columns cs f =
     (if ''pct_vaccinated'' \<in> set (columns f) \<or> \<not> (\<exists>g\<in>set cs. qualifies g f) then columns f
      else columns f @ [''pct_vaccinated''])"

subsection \<open>Example tables\<close>

text \<open>The numeric cells of an example row: the listed ones, null elsewhere.\<close>

definition cells :: "(string \<times> fval) list \<Rightarrow> string \<Rightarrow> fval" where
  "cells kv c = (case map_of kv c of None \<Rightarrow> NaN | Some v \<Rightarrow> v)"

text \<open>One observation with deaths but zero cases.\<close>

definition zero_cases_frame :: frame where
  "zero_cases_frame =
     \<lparr>columns = [''total_cases'', ''total_deaths''],
      rows = [\<lparr>location = ''Kenya'', iso_code = Some ''KEN'', date = 1,
                num = cells [(''total_cases'', Fin 0), (''total_deaths'', Fin 3)]\<rparr>]\<rparr>"

text \<open>Two observations of one location, the later date first in the table.\<close>

definition unsorted_frame :: frame where
  "unsorted_frame =
     \<lparr>columns = [''total_cases''],
      rows = [\<lparr>location = ''India'', iso_code = Some ''IND'', date = 2,
                num = cells [(''total_cases'', Fin 5)]\<rparr>,
              \<lparr>location = ''India'', iso_code = Some ''IND'', date = 1,
                num = cells []\<rparr>]\<rparr>"

text \<open>Two locations in date order; India's second observation lacks \<open>total_cases\<close>.\<close>

definition gap_frame :: frame where
  "gap_frame =
     \<lparr>columns = [''total_cases'', ''population''],
      rows = [\<lparr>location = ''India'', iso_code = Some ''IND'', date = 1,
                num = cells [(''total_cases'', Fin 5), (''population'', Fin 100)]\<rparr>,
              \<lparr>location = ''Kenya'', iso_code = Some ''KEN'', date = 1,
                num = cells [(''population'', Fin 50)]\<rparr>,
              \<lparr>location = ''India'', iso_code = Some ''IND'', date = 2,
                num = cells [(''population'', Fin 100)]\<rparr>,
              \<lparr>location = ''Kenya'', iso_code = Some ''KEN'', date = 2,
                num = cells [(''total_cases'', Fin 7), (''population'', Fin 50)]\<rparr>]\<rparr>"





text \<open>The same (date, location) pair in two rows.\<close>

definition duplicate_frame :: frame where
  "duplicate_frame =
     \<lparr>columns = [''total_cases''],
      rows = [\<lparr>location = ''India'', iso_code = Some ''IND'', date = 1,
                num = cells [(''total_cases'', Fin 5)]\<rparr>,
              \<lparr>location = ''India'', iso_code = Some ''IND'', date = 1,
                num = cells [(''total_cases'', Fin 6)]\<rparr>]\<rparr>"

text \<open>A renderer that always succeeds, and one that always fails.\<close>

definition renders_fine :: renderer where
  "renders_fine title data = None"

definition no_network :: renderer where
  "no_network title data = Some ''no network''"

text \<open>Two days of one location with every column the notebook reads; the second day
  lacks \<open>total_cases_per_million\<close>.\<close>

definition stale_frame :: frame where
  "stale_frame =
     \<lparr>columns = [''total_cases'', ''new_cases'', ''total_deaths'', ''people_fully_vaccinated'',
                 ''population'', ''total_cases_per_million''],
      rows = [\<lparr>location = ''India'', iso_code = Some ''IND'', date = 1,
                num = cells [(''total_cases'', Fin 10), (''new_cases'', Fin 10),
                             (''total_deaths'', Fin 1), (''people_fully_vaccinated'', Fin 5),
                             (''population'', Fin 100), (''total_cases_per_million'', Fin 7)]\<rparr>,
              \<lparr>location = ''India'', iso_code = Some ''IND'', date = 2,
                num = cells [(''total_cases'', Fin 20), (''new_cases'', Fin 10),
                             (''total_deaths'', Fin 2), (''people_fully_vaccinated'', Fin 10),
                             (''population'', Fin 100)]\<rparr>]\<rparr>"


text \<open>Two locations with the same totals on their last day, and the world aggregate.\<close>

definition tie_frame :: frame where
  "tie_frame =
     \<lparr>columns = [''total_cases'', ''new_cases'', ''total_deaths'', ''people_fully_vaccinated'',
                 ''population'', ''total_cases_per_million''],
      rows = [\<lparr>location = ''India'', iso_code = Some ''IND'', date = 1,
                num = cells [(''total_cases'', Fin 5), (''new_cases'', Fin 5),
                             (''total_deaths'', Fin 1), (''people_fully_vaccinated'', Fin 10),
                             (''population'', Fin 100), (''total_cases_per_million'', Fin 7)]\<rparr>,
              \<lparr>location = ''Kenya'', iso_code = Some ''KEN'', date = 1,
                num = cells [(''total_cases'', Fin 5), (''new_cases'', Fin 5),
                             (''total_deaths'', Fin 1), (''people_fully_vaccinated'', Fin 75),
                             (''population'', Fin 50), (''total_cases_per_million'', Fin 8)]\<rparr>,
              \<lparr>location = ''World'', iso_code = Some ''OWID_WRL'', date = 1,
                num = cells [(''total_cases'', Fin 10), (''new_cases'', Fin 10),
                             (''total_deaths'', Fin 2), (''people_fully_vaccinated'', Fin 85),
                             (''population'', Fin 150), (''total_cases_per_million'', Fin 9)]\<rparr>]\<rparr>"




section \<open>Basic facts about column assignment\<close>

lemma length_rows_assign:
  "length vs = length (rows f) \<Longrightarrow> length (rows (assign c vs f)) = length (rows f)"
  by (simp add: assign_def)

lemma nth_rows_assign:
  "length vs = length (rows f) \<Longrightarrow> i < length (rows f) \<Longrightarrow>
     rows (assign c vs f) ! i = set_num c (rows f ! i) (vs ! i)"
  by (simp add: assign_def)

lemma num_set_num: "num (set_num c r v) c' = (if c' = c then v else num r c')"
  by (simp add: set_num_def)

lemma key_set_num [simp]:
  "location (set_num c r v) = location r"
  "date (set_num c r v) = date r"
  "iso_code (set_num c r v) = iso_code r"
  by (simp_all add: set_num_def)

lemma ratio_pct_isna:
  "isna (ratio_pct a b) \<longleftrightarrow>
     isna a \<or> isna b \<or> (a = Fin 0 \<and> b = Fin 0) \<or> (isinf a \<and> isinf b)"
  by (cases a; cases b) (auto simp: ratio_pct_def isna_def isinf_def)

lemma add_ratio_column_nth:
  assumes "add_ratio_column c a b f = Inr f'" and "i < length (rows f)"
  shows "num (rows f' ! i) c = ratio_pct (num (rows f ! i) a) (num (rows f ! i) b)"
proof -
  from assms(1) have f': "f' = assign c (map2 ratio_pct (map (\<lambda>r. num r a) (rows f))
      (map (\<lambda>r. num r b) (rows f))) f"
    by (auto simp: add_ratio_column_def and_then_def getcol_def split: if_splits)
  show ?thesis
    using assms(2) by (simp add: f' nth_rows_assign num_set_num)
qed

lemma add_ratio_column_length:
  "add_ratio_column c a b f = Inr f' \<Longrightarrow> length (rows f') = length (rows f)"
  by (auto simp: add_ratio_column_def and_then_def getcol_def assign_def split: if_splits)

section \<open>Grouped transforms\<close>

lemma length_broadcast [simp]: "length (broadcast res rs) = length rs"
  by (simp add: broadcast_def)

lemma rank_in_group_append:
  "i < length rs \<Longrightarrow> rank_in_group (rs @ qs) i = rank_in_group rs i"
  by (simp add: rank_in_group_def nth_append)

lemma rank_in_group_length:
  "rank_in_group (rs @ r # qs) (length rs) = length (group_rows (location r) rs)"
  by (simp add: rank_in_group_def)

lemma broadcast_snoc:
  "broadcast res (rs @ [r]) =
     broadcast res rs @ [res (location r) ! length (group_rows (location r) rs)]"
proof -
  have "map (\<lambda>i. res (location ((rs @ [r]) ! i)) ! rank_in_group (rs @ [r]) i) [0..<length rs]
      = map (\<lambda>i. res (location (rs ! i)) ! rank_in_group rs i) [0..<length rs]"
    by (rule map_cong) (simp_all add: rank_in_group_append nth_append)
  then show ?thesis
    by (simp add: broadcast_def rank_in_group_length)
qed

lemma group_values_broadcast:
  "length (group_rows g rs) \<le> length (res g) \<Longrightarrow>
     group_values g rs (broadcast res rs) = take (length (group_rows g rs)) (res g)"
proof (induction rs rule: rev_induct)
  case Nil
  then show ?case by (simp add: group_values_def group_rows_def broadcast_def)
next
  case (snoc r rs)
  have le: "length (group_rows g rs) \<le> length (res g)"
    using snoc.prems by (simp add: group_rows_def split: if_splits)
  note ih = snoc.IH [OF le]
  show ?case
  proof (cases "location r = g")
    case True
    then have lt: "length (group_rows g rs) < length (res g)"
      using snoc.prems by (simp add: group_rows_def)
    have "group_values g (rs @ [r]) (broadcast res (rs @ [r]))
        = group_values g rs (broadcast res rs) @ [res g ! length (group_rows g rs)]"
      using True by (simp add: broadcast_snoc group_values_def)
    also have "\<dots> = take (Suc (length (group_rows g rs))) (res g)"
      using lt by (simp add: ih take_Suc_conv_app_nth)
    finally show ?thesis using True by (simp add: group_rows_def)
  next
    case False
    then show ?thesis
      using ih by (simp add: broadcast_snoc group_values_def group_rows_def)
  qed
qed

lemma group_series_assign_same:
  "length vs = length (rows f) \<Longrightarrow>
     group_series c g (rows (assign c vs f)) = group_values g (rows f) vs"
proof -
  assume len: "length vs = length (rows f)"
  have "length vs = length rs \<Longrightarrow>
      map (\<lambda>r. num r c) (filter (\<lambda>r. location r = g) (map2 (set_num c) rs vs))
        = map snd (filter (\<lambda>p. location (fst p) = g) (zip rs vs))" for rs
    by (induction rs vs rule: list_induct2') (auto simp: num_set_num)
  from this [OF len] show ?thesis
    by (simp add: group_series_def group_rows_def assign_def group_values_def)
qed

lemma group_series_assign_other:
  "length vs = length (rows f) \<Longrightarrow> c' \<noteq> c \<Longrightarrow>
     group_series c' g (rows (assign c vs f)) = group_series c' g (rows f)"
proof -
  assume len: "length vs = length (rows f)" and ne: "c' \<noteq> c"
  have "length vs = length rs \<Longrightarrow>
      map (\<lambda>r. num r c') (filter (\<lambda>r. location r = g) (map2 (set_num c) rs vs))
        = map (\<lambda>r. num r c') (filter (\<lambda>r. location r = g) rs)" for rs
    using ne by (induction rs vs rule: list_induct2') (auto simp: num_set_num)
  from this [OF len] show ?thesis
    by (simp add: group_series_def group_rows_def assign_def)
qed

lemma length_group_series [simp]: "length (group_series c g rs) = length (group_rows g rs)"
  by (simp add: group_series_def)

lemma group_series_transform:
  assumes "\<And>xs. length (fn xs) = length xs"
  shows "group_series c g (rows (assign c (groupby_transform fn c' (rows f)) f))
           = fn (group_series c' g (rows f))"
proof -
  have "group_series c g (rows (assign c (groupby_transform fn c' (rows f)) f))
      = group_values g (rows f) (groupby_transform fn c' (rows f))"
    by (rule group_series_assign_same) (simp add: groupby_transform_def)
  also have "\<dots> = take (length (group_rows g (rows f))) (fn (group_series c' g (rows f)))"
    unfolding groupby_transform_def
    by (rule group_values_broadcast) (simp add: assms)
  also have "\<dots> = fn (group_series c' g (rows f))"
    by (simp add: assms)
  finally show ?thesis .
qed

lemma length_ffill_from [simp]: "length (ffill_from p xs) = length xs"
  by (induction xs arbitrary: p) auto

lemma length_ffill [simp]: "length (ffill xs) = length xs"
  by (simp add: ffill_def)

lemma last_valid_or_Cons:
  "last_valid_or p (v # xs) = last_valid_or (if isna v then p else v) xs"
  by (simp add: last_valid_or_def)

lemma ffill_from_nth:
  "i < length xs \<Longrightarrow> ffill_from p xs ! i = last_valid_or p (take (Suc i) xs)"
proof (induction xs arbitrary: p i)
  case Nil
  then show ?case by simp
next
  case (Cons v xs)
  show ?case
  proof (cases i)
    case 0
    then show ?thesis by (simp add: last_valid_or_def)
  next
    case (Suc k)
    with Cons.prems have k: "k < length xs" by simp
    show ?thesis
      using Cons.IH [OF k] Suc by (simp add: last_valid_or_Cons)
  qed
qed

section \<open>Forward fill\<close>

lemma last_valid_or_snoc:
  "last_valid_or p (xs @ [v]) = (if isna v then last_valid_or p xs else v)"
  by (simp add: last_valid_or_def)

lemma ffill_nth_valid:
  "i < length xs \<Longrightarrow> \<not> isna (xs ! i) \<Longrightarrow> ffill xs ! i = xs ! i"
  by (simp add: ffill_def ffill_from_nth take_Suc_conv_app_nth last_valid_or_snoc)

lemma ffill_nth_0_na:
  "0 < length xs \<Longrightarrow> isna (xs ! 0) \<Longrightarrow> ffill xs ! 0 = NaN"
  by (simp add: ffill_def ffill_from_nth take_Suc_conv_app_nth last_valid_or_snoc last_valid_or_def)

lemma ffill_nth_Suc_na:
  "Suc i < length xs \<Longrightarrow> isna (xs ! Suc i) \<Longrightarrow> ffill xs ! Suc i = ffill xs ! i"
  by (simp add: ffill_def ffill_from_nth take_Suc_conv_app_nth [of "Suc i"] last_valid_or_snoc)

lemma ffill_all_na:
  "i < length xs \<Longrightarrow> \<forall>j\<le>i. isna (xs ! j) \<Longrightarrow> isna (ffill xs ! i)"
proof (induction i)
  case 0
  then show ?case by (simp add: ffill_nth_0_na isna_def)
next
  case (Suc i)
  then show ?case by (simp add: ffill_nth_Suc_na)
qed

lemma ffill_some_valid:
  "i < length xs \<Longrightarrow> \<exists>j\<le>i. \<not> isna (xs ! j) \<Longrightarrow> \<not> isna (ffill xs ! i)"
proof (induction i)
  case 0
  then show ?case by (simp add: ffill_nth_valid)
next
  case (Suc i)
  show ?case
  proof (cases "isna (xs ! Suc i)")
    case True
    with Suc.prems(2) have "\<exists>j\<le>i. \<not> isna (xs ! j)"
      by (metis le_SucE)
    with Suc.IH Suc.prems(1) have "\<not> isna (ffill xs ! i)" by simp
    then show ?thesis using True Suc.prems(1) by (simp add: ffill_nth_Suc_na)
  next
    case False
    then show ?thesis using Suc.prems(1) by (simp add: ffill_nth_valid)
  qed
qed

lemma ffill_most_recent:
  "i < length xs \<Longrightarrow> j < i \<Longrightarrow> \<not> isna (xs ! j) \<Longrightarrow> \<forall>k. j < k \<and> k \<le> i \<longrightarrow> isna (xs ! k) \<Longrightarrow>
     ffill xs ! i = xs ! j"
proof (induction i)
  case 0
  then show ?case by simp
next
  case (Suc i)
  have na: "isna (xs ! Suc i)" using Suc.prems by simp
  have step: "ffill xs ! Suc i = ffill xs ! i"
    using Suc.prems(1) na by (rule ffill_nth_Suc_na)
  show ?case
  proof (cases "j = i")
    case True
    then show ?thesis using step Suc.prems by (simp add: ffill_nth_valid)
  next
    case False
    with Suc.prems have "j < i" by simp
    then show ?thesis using step Suc.IH Suc.prems by simp
  qed
qed

subsection \<open>The cleaning loop\<close>

lemma length_groupby_transform [simp]:
  "length (groupby_transform fn c rs) = length rs"
  by (simp add: groupby_transform_def)

lemma ffill_metric_columns [simp]: "columns (ffill_metric m f) = columns f"
  by (simp add: ffill_metric_def assign_def)

lemma ffill_metric_length [simp]: "length (rows (ffill_metric m f)) = length (rows f)"
  by (simp add: ffill_metric_def assign_def)

lemma group_series_ffill_metric:
  "group_series c g (rows (ffill_metric m f)) =
     (if c = m \<and> m \<in> set (columns f) then ffill (group_series c g (rows f))
      else group_series c g (rows f))"
  by (simp add: ffill_metric_def group_series_transform group_series_assign_other)

lemma group_series_fold_ffill:
  "distinct ms \<Longrightarrow>
   group_series c g (rows (fold ffill_metric ms f)) =
     (if c \<in> set ms \<and> c \<in> set (columns f) then ffill (group_series c g (rows f))
      else group_series c g (rows f))"
proof (induction ms arbitrary: f)
  case Nil
  then show ?case by simp
next
  case (Cons m ms)
  then show ?case
    by (auto simp: group_series_ffill_metric)
qed

lemma distinct_key_metrics: "distinct key_metrics"
  by (simp add: key_metrics_def)

lemma group_series_ffill_key_metrics:
  "m \<in> set key_metrics \<Longrightarrow> m \<in> set (columns f) \<Longrightarrow>
     group_series m g (rows (ffill_key_metrics f)) = ffill (group_series m g (rows f))"
  by (simp add: ffill_key_metrics_def group_series_fold_ffill distinct_key_metrics)

lemma group_rows_split:
  "i < length rs \<Longrightarrow>
     group_rows (location (rs ! i)) rs =
       group_rows (location (rs ! i)) (take i rs) @ rs ! i #
         group_rows (location (rs ! i)) (drop (Suc i) rs)"
proof -
  assume "i < length rs"
  then have "rs = take i rs @ rs ! i # drop (Suc i) rs"
    by (simp add: id_take_nth_drop)
  then have "group_rows (location (rs ! i)) rs =
      group_rows (location (rs ! i)) (take i rs @ rs ! i # drop (Suc i) rs)"
    by simp
  then show ?thesis
    by (simp add: group_rows_def)
qed

lemma rank_in_group_less:
  "i < length rs \<Longrightarrow> rank_in_group rs i < length (group_rows (location (rs ! i)) rs)"
  by (subst group_rows_split) (simp_all add: rank_in_group_def)

lemma nth_group_series_rank:
  "i < length rs \<Longrightarrow>
     group_series c (location (rs ! i)) rs ! rank_in_group rs i = num (rs ! i) c"
  unfolding group_series_def
  by (subst group_rows_split) (simp_all add: rank_in_group_def nth_append)

lemma ffill_metric_row:
  "i < length (rows f) \<Longrightarrow>
     rows (ffill_metric m f) ! i =
       (if m \<in> set (columns f)
        then set_num m (rows f ! i)
               (ffill (group_series m (location (rows f ! i)) (rows f)) ! rank_in_group (rows f) i)
        else rows f ! i)"
  by (simp add: ffill_metric_def nth_rows_assign groupby_transform_def broadcast_def)

lemma ffill_metric_keeps:
  assumes "i < length (rows f)" and "c \<noteq> m \<or> \<not> isna (num (rows f ! i) c)"
  shows "num (rows (ffill_metric m f) ! i) c = num (rows f ! i) c"
proof (cases "c = m \<and> m \<in> set (columns f)")
  case True
  with assms(2) have valid: "\<not> isna (num (rows f ! i) m)" by simp
  let ?s = "group_series m (location (rows f ! i)) (rows f)"
  have k: "rank_in_group (rows f) i < length ?s"
    using assms(1) by (simp add: rank_in_group_less)
  have at: "?s ! rank_in_group (rows f) i = num (rows f ! i) m"
    using assms(1) by (rule nth_group_series_rank)
  have "ffill ?s ! rank_in_group (rows f) i = num (rows f ! i) m"
    using ffill_nth_valid [OF k] valid at by simp
  then show ?thesis
    using True assms(1) by (simp add: ffill_metric_row num_set_num)
next
  case False
  then show ?thesis
    using assms(1) by (auto simp: ffill_metric_row num_set_num)
qed

lemma ffill_metric_key:
  "i < length (rows f) \<Longrightarrow>
     location (rows (ffill_metric m f) ! i) = location (rows f ! i) \<and>
     date (rows (ffill_metric m f) ! i) = date (rows f ! i) \<and>
     iso_code (rows (ffill_metric m f) ! i) = iso_code (rows f ! i)"
  by (simp add: ffill_metric_row)

lemma fold_ffill_metric_frame:
  "columns (fold ffill_metric ms f) = columns f \<and>
   length (rows (fold ffill_metric ms f)) = length (rows f)"
  by (induction ms arbitrary: f) simp_all

lemma fold_ffill_metric_key:
  "i < length (rows f) \<Longrightarrow>
     location (rows (fold ffill_metric ms f) ! i) = location (rows f ! i) \<and>
     date (rows (fold ffill_metric ms f) ! i) = date (rows f ! i) \<and>
     iso_code (rows (fold ffill_metric ms f) ! i) = iso_code (rows f ! i)"
  by (induction ms arbitrary: f) (simp_all add: ffill_metric_key)

lemma fold_ffill_metric_keeps:
  "i < length (rows f) \<Longrightarrow> c \<notin> set ms \<or> \<not> isna (num (rows f ! i) c) \<Longrightarrow>
     num (rows (fold ffill_metric ms f) ! i) c = num (rows f ! i) c"
proof (induction ms arbitrary: f)
  case Nil
  then show ?case by simp
next
  case (Cons m ms)
  have one: "num (rows (ffill_metric m f) ! i) c = num (rows f ! i) c"
    using Cons.prems by (intro ffill_metric_keeps) auto
  have "num (rows (fold ffill_metric ms (ffill_metric m f)) ! i) c
      = num (rows (ffill_metric m f) ! i) c"
    using Cons.prems one by (intro Cons.IH) auto
  with one show ?case by simp
qed

section \<open>Ratios\<close>

lemma ratio_pct_zero_denominator:
  "\<not> isna a \<Longrightarrow> a \<noteq> Fin 0 \<Longrightarrow> isinf (ratio_pct a (Fin 0))"
  by (cases a) (auto simp: ratio_pct_def isna_def isinf_def)

section \<open>Rolling mean\<close>
















section \<open>Pivot tables and errors\<close>

lemma and_then_Inl [simp]: "and_then (Inl e) k = Inl e"
  by (simp add: and_then_def)

lemma and_then_Inr [simp]: "and_then (Inr x) k = k x"
  by (simp add: and_then_def)

lemma and_then_eq_Inr:
  "and_then m k = Inr y \<longleftrightarrow> (\<exists>x. m = Inr x \<and> k x = Inr y)"
  by (cases m) simp_all

lemma filter_distinct_key:
  "distinct (map key xs) \<Longrightarrow> x \<in> set xs \<Longrightarrow> filter (\<lambda>y. key y = key x) xs = [x]"
proof (induction xs)
  case Nil
  then show ?case by simp
next
  case (Cons a xs)
  show ?case
  proof (cases "a = x")
    case True
    have "filter (\<lambda>y. key y = key x) xs = []"
      using Cons.prems(1) True by (auto simp: filter_empty_conv image_iff)
    with True show ?thesis by simp
  next
    case False
    with Cons.prems have "x \<in> set xs" and "key a \<noteq> key x" by auto
    with Cons show ?thesis by simp
  qed
qed

lemma pivot_duplicates:
  "\<not> distinct (map row_key (rows f)) \<Longrightarrow>
     pivot c f = (if c \<in> set (columns f)
                  then Inl (ValueError ''Index contains duplicate entries, cannot reshape'')
                  else Inl (KeyError c))"
  by (simp add: pivot_def)

lemma pivot_Inr_distinct: "pivot c f = Inr p \<Longrightarrow> distinct (map row_key (rows f))"
  by (simp add: pivot_def split: if_splits)

lemma pivot_cell_row:
  assumes "pivot c f = Inr p" and "r \<in> set (rows f)"
  shows "p_cell p (date r) (location r) = num r c"
proof -
  have d: "distinct (map row_key (rows f))"
    using assms(1) by (rule pivot_Inr_distinct)
  have "filter (\<lambda>r'. row_key r' = row_key r) (rows f) = [r]"
    using d assms(2) by (rule filter_distinct_key)
  then have "filter (\<lambda>r'. row_key r' = (date r, location r)) (rows f) = [r]"
    by (simp add: row_key_def)
  moreover have "p_cell p = (\<lambda>d g. case filter (\<lambda>r. row_key r = (d, g)) (rows f) of
      [] \<Rightarrow> NaN | r # _ \<Rightarrow> num r c)"
    using assms(1) by (auto simp: pivot_def split: if_splits)
  ultimately show ?thesis by simp
qed

lemma pivot_cell_empty:
  assumes "pivot c f = Inr p" and "(d, g) \<notin> row_key ` set (rows f)"
  shows "p_cell p d g = NaN"
proof -
  have "filter (\<lambda>r. row_key r = (d, g)) (rows f) = []"
    using assms(2) by (auto simp: filter_empty_conv image_iff)
  moreover have "p_cell p = (\<lambda>d g. case filter (\<lambda>r. row_key r = (d, g)) (rows f) of
      [] \<Rightarrow> NaN | r # _ \<Rightarrow> num r c)"
    using assms(1) by (auto simp: pivot_def split: if_splits)
  ultimately show ?thesis by simp
qed

lemma row_key_ffill_key_metrics:
  "map row_key (rows (ffill_key_metrics f)) = map row_key (rows f)"
proof (rule nth_equalityI)
  show "length (map row_key (rows (ffill_key_metrics f))) = length (map row_key (rows f))"
    using fold_ffill_metric_frame [of key_metrics f] by (simp add: ffill_key_metrics_def)
next
  fix i assume "i < length (map row_key (rows (ffill_key_metrics f)))"
  then have i: "i < length (rows f)"
    using fold_ffill_metric_frame [of key_metrics f] by (simp add: ffill_key_metrics_def)
  then show "map row_key (rows (ffill_key_metrics f)) ! i = map row_key (rows f) ! i"
    using fold_ffill_metric_frame [of key_metrics f] fold_ffill_metric_key [OF i, of key_metrics]
    by (simp add: ffill_key_metrics_def row_key_def)
qed

lemma columns_ffill_key_metrics [simp]: "columns (ffill_key_metrics f) = columns f"
  using fold_ffill_metric_frame [of key_metrics f] by (simp add: ffill_key_metrics_def)

lemma sections_3_to_5_duplicates:
  assumes "\<not> distinct (map row_key (rows (isin countries_of_interest df)))"
  shows "sections_3_to_5 df =
     (if ''total_cases'' \<in> set (columns df)
      then Inl (ValueError ''Index contains duplicate entries, cannot reshape'')
      else Inl (KeyError ''total_cases''))"
proof -
  have "\<not> distinct (map row_key (rows (ffill_key_metrics (isin countries_of_interest df))))"
    using assms by (simp add: row_key_ffill_key_metrics)
  then have "pivot ''total_cases'' (ffill_key_metrics (isin countries_of_interest df)) =
     (if ''total_cases'' \<in> set (columns df)
      then Inl (ValueError ''Index contains duplicate entries, cannot reshape'')
      else Inl (KeyError ''total_cases''))"
    by (simp add: pivot_duplicates isin_def)
  then show ?thesis
    by (simp add: sections_3_to_5_def Let_def)
qed

section \<open>Latest snapshot\<close>

lemma group_rows_sort_values_date:
  "group_rows g (sort_values_date rs) = sort_key date (group_rows g rs)"
  by (simp add: group_rows_def sort_values_date_def filter_sort)

lemma group_keys_set [simp]: "set (group_keys rs) = location ` set rs"
  by (simp add: group_keys_def)

lemma group_keys_distinct [simp]: "distinct (group_keys rs)"
  by (simp add: group_keys_def)

lemma group_keys_sort_values_date: "group_keys (sort_values_date rs) = group_keys rs"
proof -
  have "sorted_list_of_set (set (map location (sort_key date rs)))
      = sorted_list_of_set (set (map location rs))"
    by simp
  then show ?thesis
    unfolding group_keys_def sort_values_date_def sorted_list_of_set_sort_remdups .
qed

lemma location_last_of_group [simp]: "location (last_of_group g rs) = g"
  by (simp add: last_of_group_def Let_def)

lemma rows_latest:
  "rows (latest f) = map (\<lambda>g. last_of_group g (sort_values_date (rows f))) (group_keys (rows f))"
  by (simp add: latest_def groupby_last_def group_keys_sort_values_date)

lemma columns_latest [simp]: "columns (latest f) = columns f"
  by (simp add: latest_def)

lemma locations_latest: "location ` set (rows (latest f)) = location ` set (rows f)"
  by (simp add: rows_latest image_image)

lemma distinct_locations_latest: "distinct (map location (rows (latest f)))"
  by (simp add: rows_latest comp_def)

lemma group_rows_latest:
  assumes "g \<in> location ` set (rows f)"
  shows "group_rows g (rows (latest f)) = [last_of_group g (sort_values_date (rows f))]"
proof -
  have d: "distinct (map location (rows (latest f)))"
    by (rule distinct_locations_latest)
  have m: "last_of_group g (sort_values_date (rows f)) \<in> set (rows (latest f))"
    using assms by (auto simp: rows_latest)
  from filter_distinct_key [OF d m] show ?thesis
    by (simp add: group_rows_def)
qed

lemma num_last_of_group:
  "num (last_of_group g (sort_values_date rs)) c = last_valid (chrono_series c g rs)"
  by (simp add: last_of_group_def Let_def group_rows_sort_values_date chrono_series_def)

lemma last_valid_last:
  "xs \<noteq> [] \<Longrightarrow> \<not> isna (last xs) \<Longrightarrow> last_valid xs = last xs"
  by (induction xs rule: rev_induct) (simp_all add: last_valid_def)

lemma last_valid_all_na: "(\<forall>v\<in>set xs. isna v) \<Longrightarrow> last_valid xs = NaN"
  by (simp add: last_valid_def filter_empty_conv)

lemma last_valid_mem:
  "\<not> isna (last_valid xs) \<Longrightarrow> last_valid xs \<in> set xs"
proof -
  assume a: "\<not> isna (last_valid xs)"
  then have ne: "filter (\<lambda>v. \<not> isna v) xs \<noteq> []"
    by (auto simp: last_valid_def isna_def Let_def)
  then have "last (filter (\<lambda>v. \<not> isna v) xs) \<in> set (filter (\<lambda>v. \<not> isna v) xs)"
    by (rule last_in_set)
  with ne show ?thesis
    by (simp add: last_valid_def Let_def)
qed

lemma last_present_last:
  "xs \<noteq> [] \<Longrightarrow> last xs \<noteq> None \<Longrightarrow> last_present xs = last xs"
  by (induction xs rule: rev_induct) (simp_all add: last_present_def)

lemma sort_key_Nil_iff [simp]: "sort_key key xs = [] \<longleftrightarrow> xs = []"
  by (metis length_sort length_0_conv)

lemma sorted_last_max:
  "sorted xs \<Longrightarrow> x \<in> set xs \<Longrightarrow> x \<le> last xs"
  by (induction xs) (auto split: if_splits)

lemma date_last_sort_key:
  assumes "r \<in> set rs"
  shows "date r \<le> date (last (sort_key date rs))"
proof -
  have ne: "sort_key date rs \<noteq> []" using assms by (cases rs) simp_all
  have "date r \<in> set (map date (sort_key date rs))" using assms by simp
  then have "date r \<le> last (map date (sort_key date rs))"
    by (intro sorted_last_max) simp_all
  then show ?thesis using ne by (simp add: last_map)
qed

lemma distinct_dates_in_group:
  assumes "distinct (map row_key rs)"
  shows "inj_on date (set (group_rows g rs))"
proof (rule inj_onI)
  fix x y assume x: "x \<in> set (group_rows g rs)" and y: "y \<in> set (group_rows g rs)"
    and d: "date x = date y"
  then have "row_key x = row_key y" and "x \<in> set rs" and "y \<in> set rs"
    by (auto simp: group_rows_def row_key_def)
  with assms show "x = y"
    by (metis distinct_map inj_onD)
qed

lemma latest_row_is_last:
  assumes d: "distinct (map row_key rs)" and r: "r \<in> set rs"
    and top: "\<forall>r'\<in>set rs. location r' = location r \<longrightarrow> date r' \<le> date r"
  shows "last (sort_key date (group_rows (location r) rs)) = r"
proof -
  let ?grp = "group_rows (location r) rs"
  let ?l = "last (sort_key date ?grp)"
  have rg: "r \<in> set ?grp" using r by (simp add: group_rows_def)
  then have ne: "sort_key date ?grp \<noteq> []" by (cases ?grp) simp_all
  then have "?l \<in> set (sort_key date ?grp)" by (rule last_in_set)
  then have lg: "?l \<in> set ?grp" by simp
  then have "date ?l \<le> date r" using top by (simp add: group_rows_def)
  moreover have "date r \<le> date ?l" using rg by (rule date_last_sort_key)
  ultimately have "date ?l = date r" by simp
  with distinct_dates_in_group [OF d, of "location r"] lg rg show ?thesis
    by (auto dest: inj_onD)
qed

lemma last_of_group_latest_row:
  assumes d: "distinct (map row_key rs)" and r: "r \<in> set rs"
    and top: "\<forall>r'\<in>set rs. location r' = location r \<longrightarrow> date r' \<le> date r"
  shows "date (last_of_group (location r) (sort_values_date rs)) = date r"
    and "\<not> isna (num r c) \<Longrightarrow> num (last_of_group (location r) (sort_values_date rs)) c = num r c"
    and "iso_code r \<noteq> None \<Longrightarrow> iso_code (last_of_group (location r) (sort_values_date rs)) = iso_code r"
proof -
  let ?grp = "sort_key date (group_rows (location r) rs)"
  have l: "last ?grp = r" using d r top by (rule latest_row_is_last)
  have ne: "?grp \<noteq> []" using r by (auto simp: group_rows_def filter_empty_conv)
  show "date (last_of_group (location r) (sort_values_date rs)) = date r"
    using l ne by (simp add: last_of_group_def Let_def group_rows_sort_values_date last_map)
  show "num (last_of_group (location r) (sort_values_date rs)) c = num r c" if "\<not> isna (num r c)"
    using l ne that last_valid_last [of "map (\<lambda>r. num r c) ?grp"]
    by (simp add: last_of_group_def Let_def group_rows_sort_values_date last_map)
  show "iso_code (last_of_group (location r) (sort_values_date rs)) = iso_code r" if "iso_code r \<noteq> None"
    using l ne that last_present_last [of "map iso_code ?grp"]
    by (simp add: last_of_group_def Let_def group_rows_sort_values_date last_map)
qed

section \<open>Sorting for the rankings\<close>

lemma desc_key_le: "desc_key a \<le> desc_key b \<longleftrightarrow> stands_before a b"
  by (cases a; cases b) (simp_all add: stands_before_def isna_def)

lemma sort_values_desc_rows:
  "sort_values_desc c f = Inr s \<Longrightarrow> rows s = sort_key (\<lambda>r. desc_key (num r c)) (rows f)"
  by (auto simp: sort_values_desc_def split: if_splits)

lemma descending_sort_key:
  "descending (map (\<lambda>r. num r c) (sort_key (\<lambda>r. desc_key (num r c)) rs))"
proof -
  have "sorted (map (\<lambda>r. desc_key (num r c)) (sort_key (\<lambda>r. desc_key (num r c)) rs))"
    by (rule sorted_sort_key)
  then have "sorted_wrt (\<lambda>a b. desc_key a \<le> desc_key b)
      (map (\<lambda>r. num r c) (sort_key (\<lambda>r. desc_key (num r c)) rs))"
    by (simp add: sorted_wrt_map)
  then show ?thesis
    by (simp add: descending_def desc_key_le [abs_def])
qed

lemma descending_take: "descending vs \<Longrightarrow> descending (take n vs)"
  unfolding descending_def by (rule sorted_wrt_take)

lemma top5_properties:
  assumes "top5 c f = Inr t"
  shows "length t \<le> 5" and "fst ` set t \<subseteq> location ` set (rows f)"
    and "descending (map snd t)"
proof -
  from assms obtain s where s: "sort_values_desc c f = Inr s"
    and t: "t = take 5 (map (\<lambda>r. (location r, num r c)) (rows s))"
    by (auto simp: top5_def and_then_def split: sum.splits)
  have rows: "rows s = sort_key (\<lambda>r. desc_key (num r c)) (rows f)"
    using s by (rule sort_values_desc_rows)
  show "length t \<le> 5" by (simp add: t)
  have "set t \<subseteq> set (map (\<lambda>r. (location r, num r c)) (rows s))"
    unfolding t by (rule set_take_subset)
  then show "fst ` set t \<subseteq> location ` set (rows f)"
    by (auto simp: rows)
  have "map snd t = take 5 (map (\<lambda>r. num r c) (rows s))"
    by (simp add: t take_map comp_def)
  then show "descending (map snd t)"
    by (simp add: rows descending_take descending_sort_key)
qed

section \<open>The vaccination loop\<close>

lemma group_rows_map:
  "(\<And>r. location (h r) = location r) \<Longrightarrow> group_rows g (map h rs) = map h (group_rows g rs)"
  by (simp add: group_rows_def filter_map comp_def)

lemma latest_pop_map:
  assumes "rows f' = map h (rows f)" and "keeps_but c h" and "c \<noteq> ''population''"
  shows "latest_pop g f' = latest_pop g f"
proof -
  have loc: "\<And>r. location (h r) = location r"
    using assms(2) by (simp add: keeps_but_def)
  have pop: "\<And>r. num (h r) ''population'' = num r ''population''"
    using assms(2,3) by (simp add: keeps_but_def)
  show ?thesis
  proof (cases "group_rows g (rows f) = []")
    case True
    then show ?thesis
      by (simp add: latest_pop_def assms(1) group_rows_map [of h, OF loc])
  next
    case False
    then show ?thesis
      by (simp add: latest_pop_def assms(1) group_rows_map [of h, OF loc] last_map pop)
  qed
qed

lemma qualifies_map:
  assumes "rows f' = map h (rows f)" and "keeps_but c h" and "c \<noteq> ''population''"
    and "''people_fully_vaccinated'' \<in> set (columns f') \<longleftrightarrow> ''people_fully_vaccinated'' \<in> set (columns f)"
  shows "qualifies g f' = qualifies g f"
proof -
  have loc: "\<And>r. location (h r) = location r"
    using assms(2) by (simp add: keeps_but_def)
  show ?thesis
    unfolding qualifies_def latest_pop_map [OF assms(1-3)] assms(4)
    by (simp add: assms(1) group_rows_map [of h, OF loc])
qed

lemma ensure_column_rows:
  "rows (ensure_column c f) =
     map (\<lambda>r. if c \<in> set (columns f) then r else set_num c r NaN) (rows f)"
  by (simp add: ensure_column_def)

lemma ensure_column_columns:
  "columns (ensure_column c f) = (if c \<in> set (columns f) then columns f else columns f @ [c])"
  by (simp add: ensure_column_def)

lemma loc_assign_rows:
  "rows (loc_assign g c val f) =
     map (\<lambda>r. if location r = g
               then set_num c r (val (if c \<in> set (columns f) then r else set_num c r NaN))
               else if c \<in> set (columns f) then r else set_num c r NaN) (rows f)"
  by (simp add: loc_assign_def Let_def ensure_column_rows set_num_def)

lemma loc_assign_columns:
  "columns (loc_assign g c val f) = (if c \<in> set (columns f) then columns f else columns f @ [c])"
  by (simp add: loc_assign_def Let_def ensure_column_columns)

lemma pct_step_cases:
  assumes "pct_step g f = Inr f'"
  shows "(qualifies g f \<and>
          f' = loc_assign g ''pct_vaccinated''
                 (\<lambda>r. ratio_pct (num r ''people_fully_vaccinated'') (latest_pop g f)) f) \<or>
         (\<not> qualifies g f \<and> f' = f)"
  using assms by (auto simp: pct_step_def qualifies_def split: if_splits)

lemma pct_step_rows:
  assumes "pct_step g f = Inr f'"
  shows "\<exists>h. rows f' = map h (rows f) \<and> keeps_but ''pct_vaccinated'' h \<and>
             (\<forall>r. num (h r) ''pct_vaccinated'' = pct_value [g] f r) \<and>
             columns f' = pct_columns [g] f"
proof -
  from pct_step_cases [OF assms] show ?thesis
  proof (elim disjE conjE)
    assume q: "qualifies g f"
      and f': "f' = loc_assign g ''pct_vaccinated''
                 (\<lambda>r. ratio_pct (num r ''people_fully_vaccinated'') (latest_pop g f)) f"
    let ?h = "\<lambda>r. if location r = g
               then set_num ''pct_vaccinated'' r
                  (ratio_pct (num (if ''pct_vaccinated'' \<in> set (columns f) then r
                      else set_num ''pct_vaccinated'' r NaN) ''people_fully_vaccinated'') (latest_pop g f))
               else if ''pct_vaccinated'' \<in> set (columns f) then r
               else set_num ''pct_vaccinated'' r NaN"
    have "rows f' = map ?h (rows f)"
      unfolding f' by (rule loc_assign_rows)
    moreover have "keeps_but ''pct_vaccinated'' ?h"
      by (simp add: keeps_but_def num_set_num)
    moreover have "\<forall>r. num (?h r) ''pct_vaccinated'' = pct_value [g] f r"
      using q by (simp add: pct_value_def num_set_num)
    moreover have "columns f' = pct_columns [g] f"
      using q by (simp add: f' loc_assign_columns pct_columns_def)
    ultimately show ?thesis by blast
  next
    assume q: "\<not> qualifies g f" and f': "f' = f"
    have "rows f' = map (\<lambda>r. r) (rows f)" by (simp add: f')
    moreover have "keeps_but ''pct_vaccinated'' (\<lambda>r. r)" by (simp add: keeps_but_def)
    moreover have "\<forall>r. num r ''pct_vaccinated'' = pct_value [g] f r"
      using q by (auto simp: pct_value_def)
    moreover have "columns f' = pct_columns [g] f"
      using q by (simp add: f' pct_columns_def)
    ultimately show ?thesis by blast
  qed
qed

lemma pct_loop_rows:
  "pct_loop cs f = Inr f' \<Longrightarrow>
     \<exists>h. rows f' = map h (rows f) \<and> keeps_but ''pct_vaccinated'' h \<and>
         (\<forall>r. num (h r) ''pct_vaccinated'' = pct_value cs f r) \<and>
         columns f' = pct_columns cs f"
proof (induction cs arbitrary: f)
  case Nil
  then have "f' = f" by simp
  then have "rows f' = map (\<lambda>r. r) (rows f)" by simp
  moreover have "keeps_but ''pct_vaccinated'' (\<lambda>r. r)" by (simp add: keeps_but_def)
  moreover have "\<forall>r. num r ''pct_vaccinated'' = pct_value [] f r" by (simp add: pct_value_def)
  moreover have "columns f' = pct_columns [] f" using \<open>f' = f\<close> by (simp add: pct_columns_def)
  ultimately show ?case by blast
next
  case (Cons g cs)
  from Cons.prems obtain f1 where step: "pct_step g f = Inr f1" and rest: "pct_loop cs f1 = Inr f'"
    by (auto simp: and_then_def split: sum.splits)
  from pct_step_rows [OF step] obtain h1 where
    r1: "rows f1 = map h1 (rows f)" and k1: "keeps_but ''pct_vaccinated'' h1"
    and v1: "\<forall>r. num (h1 r) ''pct_vaccinated'' = pct_value [g] f r"
    and c1: "columns f1 = pct_columns [g] f"
    by blast
  from Cons.IH [OF rest] obtain h2 where
    r2: "rows f' = map h2 (rows f1)" and k2: "keeps_but ''pct_vaccinated'' h2"
    and v2: "\<forall>r. num (h2 r) ''pct_vaccinated'' = pct_value cs f1 r"
    and c2: "columns f' = pct_columns cs f1"
    by blast
  have pfv: "''people_fully_vaccinated'' \<in> set (columns f1) \<longleftrightarrow>
      ''people_fully_vaccinated'' \<in> set (columns f)"
    by (simp add: c1 pct_columns_def)
  have q: "qualifies g' f1 = qualifies g' f" for g'
    using r1 k1 _ pfv by (rule qualifies_map) simp
  have lp: "latest_pop g' f1 = latest_pop g' f" for g'
    using r1 k1 by (rule latest_pop_map) simp
  have pcol: "''pct_vaccinated'' \<in> set (columns f1) \<longleftrightarrow>
      ''pct_vaccinated'' \<in> set (columns f) \<or> qualifies g f"
    by (simp add: c1 pct_columns_def)
  have loc1: "location (h1 r) = location r" and pfv1: "num (h1 r) ''people_fully_vaccinated'' =
      num r ''people_fully_vaccinated''" for r
    using k1 by (simp_all add: keeps_but_def)
  have "rows f' = map (h2 \<circ> h1) (rows f)"
    by (simp add: r1 r2)
  moreover have "keeps_but ''pct_vaccinated'' (h2 \<circ> h1)"
    using k1 k2 by (simp add: keeps_but_def)
  moreover have "num ((h2 \<circ> h1) r) ''pct_vaccinated'' = pct_value (g # cs) f r" for r
  proof -
    have "num (h2 (h1 r)) ''pct_vaccinated'' = pct_value cs f1 (h1 r)"
      using v2 by simp
    also have "\<dots> = pct_value (g # cs) f r"
      using v1 [rule_format, of r]
      by (auto simp: pct_value_def q lp pcol loc1 pfv1)
    finally show ?thesis by simp
  qed
  moreover have "columns f' = pct_columns (g # cs) f"
    by (auto simp: c2 c1 pct_columns_def q)
  ultimately show ?case by blast
qed


section \<open>The run as a whole\<close>

lemma assign_locations:
  "length vs = length (rows f) \<Longrightarrow> map location (rows (assign c vs f)) = map location (rows f)"
  by (rule nth_equalityI) (simp_all add: assign_def)

lemma add_smoothed_locations:
  "add_smoothed f = Inr f' \<Longrightarrow> map location (rows f') = map location (rows f)"
  by (auto simp: add_smoothed_def assign_locations split: if_splits)

lemma add_ratio_column_locations:
  "add_ratio_column c a b f = Inr f' \<Longrightarrow> map location (rows f') = map location (rows f)"
  by (auto simp: add_ratio_column_def and_then_eq_Inr getcol_def assign_locations split: if_splits)

lemma ffill_key_metrics_locations:
  "map location (rows (ffill_key_metrics f)) = map location (rows f)"
proof -
  have "map snd (map row_key (rows (ffill_key_metrics f))) = map snd (map row_key (rows f))"
    by (simp only: row_key_ffill_key_metrics)
  then show ?thesis
    by (simp add: row_key_def comp_def)
qed

lemma add_pct_vaccinated_locations:
  assumes "add_pct_vaccinated f = Inr f'"
  shows "map location (rows f') = map location (rows f)"
proof -
  from assms obtain h where "rows f' = map h (rows f)" and "keeps_but ''pct_vaccinated'' h"
    using pct_loop_rows [of countries_of_interest f f'] by (auto simp: add_pct_vaccinated_def)
  then show ?thesis
    by (simp add: keeps_but_def comp_def)
qed

lemma isin_locations: "location ` set (rows (isin names f)) \<subseteq> set names"
  by (auto simp: isin_def)

lemma sections_3_to_5_Inr:
  assumes "sections_3_to_5 df = Inr (f4, out)"
  shows "\<exists>f2 f3. add_smoothed (ffill_key_metrics (isin countries_of_interest df)) = Inr f2 \<and>
           add_death_rate f2 = Inr f3 \<and> add_pct_vaccinated f3 = Inr f4"
  using assms unfolding sections_3_to_5_def Let_def and_then_eq_Inr by blast

lemma sections_3_to_5_locations:
  assumes "sections_3_to_5 df = Inr (f4, out)"
  shows "location ` set (rows f4) \<subseteq> set countries_of_interest"
proof -
  from sections_3_to_5_Inr [OF assms] obtain f2 f3 where
    a: "add_smoothed (ffill_key_metrics (isin countries_of_interest df)) = Inr f2"
    and b: "add_death_rate f2 = Inr f3" and c: "add_pct_vaccinated f3 = Inr f4"
    by blast
  have "map location (rows f4) = map location (rows (isin countries_of_interest df))"
    using add_smoothed_locations [OF a] add_ratio_column_locations [OF b [unfolded add_death_rate_def]]
      add_pct_vaccinated_locations [OF c]
    by (simp add: ffill_key_metrics_locations)
  then have "set (map location (rows f4)) = set (map location (rows (isin countries_of_interest df)))"
    by simp
  then show ?thesis
    using isin_locations [of countries_of_interest df] by simp
qed

lemma sections_7_to_8_Inr:
  assumes "sections_7_to_8 f4 = Inr (f5, ld, tc, td, tv, out)"
  shows "add_cfr f4 = Inr f5 \<and> ld = latest f5 \<and>
     top5 ''total_cases'' ld = Inr tc \<and> top5 ''total_deaths'' ld = Inr td \<and>
     top5 ''pct_vaccinated'' ld = Inr tv \<and>
     out = [Figure ''COVID-19 Case Fatality Rate Over Time'',
            Printed ''Top 5 Countries by Total Cases:'', Display tc,
            Printed (CHR 0x0A # ''Top 5 Countries by Total Deaths:''), Display td,
            Printed (CHR 0x0A # ''Top 5 Countries by Vaccination Rate:''), Display tv]"
  using assms unfolding sections_7_to_8_def Let_def and_then_eq_Inr by auto

lemma run_Inr:
  assumes "run choropleth df = Inr s"
  shows "\<exists>f4 out_a f5 ld tc td tv out_c.
     sections_3_to_5 df = Inr (f4, out_a) \<and>
     sections_7_to_8 f4 = Inr (f5, ld, tc, td, tv, out_c) \<and>
     s = \<lparr>continent_df = isin continents df, country_df = not_isin continents df,
          filtered_df = f5, latest_global_data = fst (section_6 choropleth df),
          latest_data = ld, top_cases = tc, top_deaths = td, top_vax = tv,
          outputs = out_a @ snd (section_6 choropleth df) @ out_c\<rparr>"
proof -
  obtain lg out_b where s6: "section_6 choropleth df = (lg, out_b)"
    by (cases "section_6 choropleth df")
  from assms obtain f4 out_a where a: "sections_3_to_5 df = Inr (f4, out_a)"
    by (cases "sections_3_to_5 df") (auto simp: run_def)
  from assms a obtain f5 ld tc td tv out_c where
    b: "sections_7_to_8 f4 = Inr (f5, ld, tc, td, tv, out_c)"
    by (cases "sections_7_to_8 f4") (auto simp: run_def s6)
  from assms have "s = \<lparr>continent_df = isin continents df, country_df = not_isin continents df,
          filtered_df = f5, latest_global_data = lg,
          latest_data = ld, top_cases = tc, top_deaths = td, top_vax = tv,
          outputs = out_a @ out_b @ out_c\<rparr>"
    by (simp add: run_def a b s6)
  with a b s6 show ?thesis by simp
qed


section \<open>Top-5 tables\<close>

lemma fle_antisym: "fle a b \<Longrightarrow> fle b a \<Longrightarrow> a = b"
  by (cases a; cases b) simp_all

lemma descending_distinct_strict:
  assumes "descending vs" and "distinct vs" and "\<forall>v\<in>set vs. \<not> isna v"
  shows "strictly_descending vs"
  unfolding strictly_descending_def sorted_wrt_iff_nth_less
proof (intro allI impI)
  fix i j assume ij: "i < j" and j: "j < length vs"
  then have "stands_before (vs ! i) (vs ! j)"
    using assms(1) by (simp add: descending_def sorted_wrt_iff_nth_less)
  moreover have "\<not> isna (vs ! j)" using assms(3) j by simp
  ultimately have le: "fle (vs ! j) (vs ! i)"
    by (simp add: stands_before_def)
  have "vs ! i \<noteq> vs ! j"
    using assms(2) ij j by (simp add: nth_eq_iff_index_eq)
  with le fle_antisym show "fle (vs ! j) (vs ! i) \<and> \<not> fle (vs ! i) (vs ! j)"
    by blast
qed

lemma top5_table:
  assumes "top5 c f = Inr t" and "location ` set (rows f) \<subseteq> names"
  shows "length t \<le> 5 \<and> descending (map snd t) \<and> fst ` set t \<subseteq> names \<and>
    (distinct (map snd t) \<and> (\<forall>v\<in>set (map snd t). \<not> isna v) \<longrightarrow> strictly_descending (map snd t))"
  using top5_properties [OF assms(1)] assms(2) descending_distinct_strict [of "map snd t"]
  by blast

section \<open>Country-level tables\<close>

lemma not_isin_excludes: "\<forall>r\<in>set (rows (not_isin names f)). location r \<notin> set names"
  by (simp add: not_isin_def)

lemma try_vax_map_locations:
  "map location (rows (fst (try_vax_map choropleth lg))) = map location (rows lg)"
  by (auto simp: try_vax_map_def add_ratio_column_locations split: sum.splits)

lemma section_6_locations:
  "location ` set (rows (fst (section_6 choropleth df))) = location ` set (rows df)"
proof -
  have "map location (rows (fst (section_6 choropleth df))) = map location (rows (latest df))"
    by (simp add: section_6_def Let_def split_beta try_vax_map_locations)
  then have "set (map location (rows (fst (section_6 choropleth df))))
      = set (map location (rows (latest df)))"
    by simp
  then show ?thesis by (simp add: locations_latest)
qed

lemma run_country_level_tables:
  assumes "run choropleth df = Inr s"
  shows "(\<forall>r\<in>set (rows (country_df s)). location r \<notin> set continents) \<and>
         location ` set (rows (latest_global_data s)) = location ` set (rows df)"
proof -
  from run_Inr [OF assms] have "country_df s = not_isin continents df"
    and "latest_global_data s = fst (section_6 choropleth df)"
    by force+
  then show ?thesis
    by (simp add: not_isin_excludes section_6_locations)
qed

section \<open>The two map blocks\<close>









section \<open>Table order and date order\<close>

lemma chrono_series_in_date_order:
  "sorted (map date (group_rows g rs)) \<Longrightarrow> chrono_series c g rs = group_series c g rs"
  by (simp add: chrono_series_def group_series_def sort_key_id_if_sorted)

lemma group_dates_cong:
  assumes "map row_key rs' = map row_key rs"
  shows "map date (group_rows g rs') = map date (group_rows g rs)"
proof -
  have "map date (group_rows g qs) = map fst (filter (\<lambda>k. snd k = g) (map row_key qs))" for qs
    by (simp add: group_rows_def filter_map comp_def row_key_def)
  then show ?thesis
    by (simp add: assms)
qed

lemma chrono_series_same_keys:
  assumes "map row_key rs' = map row_key rs" and "sorted (map date (group_rows g rs))"
  shows "chrono_series c g rs' = group_series c g rs'"
  using assms(2) by (intro chrono_series_in_date_order) (simp add: group_dates_cong [OF assms(1)])




section \<open>The claims\<close>

subsection \<open>C1: forward fill reaches every later observation\<close>

text \<open>
  C1, amended. For every location \<open>g\<close> and every key metric \<open>m\<close> the table has,
  take the location's values of \<open>m\<close> in table order before and after the cleaning loop.
  The two sequences have the same length, and at every position \<open>i\<close>: a value that was
  not null is kept; once some value at or before \<open>i\<close> is not null, the cleaned value is not
  null; a null value takes the value of the nearest earlier position \<open>j\<close> that is not null;
  and while every value up to \<open>i\<close> is null, the cleaned value stays null. When the table
  lists the location's rows by date, table order is the chronological order, before and
  after the loop.
\<close>

theorem C1_forward_fill_in_table_order:
  assumes "m \<in> set key_metrics" and "m \<in> set (columns f)"
  shows "length (group_series m g (rows (ffill_key_metrics f))) = length (group_series m g (rows f)) \<and>
    (\<forall>i<length (group_series m g (rows f)).
       (\<not> isna (group_series m g (rows f) ! i) \<longrightarrow>
          group_series m g (rows (ffill_key_metrics f)) ! i = group_series m g (rows f) ! i) \<and>
       ((\<exists>j\<le>i. \<not> isna (group_series m g (rows f) ! j)) \<longrightarrow>
          \<not> isna (group_series m g (rows (ffill_key_metrics f)) ! i)) \<and>
       (\<forall>j<i. \<not> isna (group_series m g (rows f) ! j) \<and>
            (\<forall>k. j < k \<and> k \<le> i \<longrightarrow> isna (group_series m g (rows f) ! k)) \<longrightarrow>
          group_series m g (rows (ffill_key_metrics f)) ! i = group_series m g (rows f) ! j) \<and>
       ((\<forall>j\<le>i. isna (group_series m g (rows f) ! j)) \<longrightarrow>
          isna (group_series m g (rows (ffill_key_metrics f)) ! i))) \<and>
    (sorted (map date (group_rows g (rows f))) \<longrightarrow>
       chrono_series m g (rows f) = group_series m g (rows f) \<and>
       chrono_series m g (rows (ffill_key_metrics f))
         = group_series m g (rows (ffill_key_metrics f)))"
proof -
  have eq: "group_series m g (rows (ffill_key_metrics f)) = ffill (group_series m g (rows f))"
    using assms by (rule group_series_ffill_key_metrics)
  have order: "chrono_series m g (rows f) = group_series m g (rows f) \<and>
      chrono_series m g (rows (ffill_key_metrics f))
        = group_series m g (rows (ffill_key_metrics f))"
    if "sorted (map date (group_rows g (rows f)))"
    using that chrono_series_in_date_order [of g "rows f" m]
      chrono_series_same_keys [OF row_key_ffill_key_metrics, of g f m]
    by simp
  have fill: "length (ffill (group_series m g (rows f))) = length (group_series m g (rows f)) \<and>
    (\<forall>i<length (group_series m g (rows f)).
       (\<not> isna (group_series m g (rows f) ! i) \<longrightarrow>
          ffill (group_series m g (rows f)) ! i = group_series m g (rows f) ! i) \<and>
       ((\<exists>j\<le>i. \<not> isna (group_series m g (rows f) ! j)) \<longrightarrow>
          \<not> isna (ffill (group_series m g (rows f)) ! i)) \<and>
       (\<forall>j<i. \<not> isna (group_series m g (rows f) ! j) \<and>
            (\<forall>k. j < k \<and> k \<le> i \<longrightarrow> isna (group_series m g (rows f) ! k)) \<longrightarrow>
          ffill (group_series m g (rows f)) ! i = group_series m g (rows f) ! j) \<and>
       ((\<forall>j\<le>i. isna (group_series m g (rows f) ! j)) \<longrightarrow>
          isna (ffill (group_series m g (rows f)) ! i)))"
    using ffill_nth_valid ffill_some_valid ffill_most_recent ffill_all_na
    by (intro conjI allI impI) (simp_all del: length_group_series)
  from fill order show ?thesis
    unfolding eq by blast
qed

text \<open>In \<open>gap_frame\<close> India's second observation has no \<open>total_cases\<close>; cleaning gives it
  the 5 of the first.\<close>

theorem C1_forward_fill_in_table_order_witness:
  "''total_cases'' \<in> set key_metrics \<and> ''total_cases'' \<in> set (columns gap_frame) \<and>
   group_series ''total_cases'' ''India'' (rows gap_frame) = [Fin 5, NaN] \<and>
   group_series ''total_cases'' ''India'' (rows (ffill_key_metrics gap_frame)) ! 1 = Fin 5"
proof -
  have m: "''total_cases'' \<in> set key_metrics"
    by (simp add: key_metrics_def)
  have c: "''total_cases'' \<in> set (columns gap_frame)"
    by (simp add: gap_frame_def)
  have xs: "group_series ''total_cases'' ''India'' (rows gap_frame) = [Fin 5, NaN]"
    by (simp add: group_series_def group_rows_def gap_frame_def cells_def)
  from C1_forward_fill_in_table_order [OF m c, of "''India''"]
  have "\<forall>i<length (group_series ''total_cases'' ''India'' (rows gap_frame)). \<forall>j<i.
      \<not> isna (group_series ''total_cases'' ''India'' (rows gap_frame) ! j) \<and>
      (\<forall>k. j < k \<and> k \<le> i \<longrightarrow> isna (group_series ''total_cases'' ''India'' (rows gap_frame) ! k)) \<longrightarrow>
      group_series ''total_cases'' ''India'' (rows (ffill_key_metrics gap_frame)) ! i
        = group_series ''total_cases'' ''India'' (rows gap_frame) ! j"
    by blast
  then have "\<forall>j<1. \<not> isna ([Fin 5, NaN] ! j) \<and> (\<forall>k. j < k \<and> k \<le> 1 \<longrightarrow> isna ([Fin 5, NaN] ! k)) \<longrightarrow>
      group_series ''total_cases'' ''India'' (rows (ffill_key_metrics gap_frame)) ! 1 = [Fin 5, NaN] ! j"
    unfolding xs by simp
  then have "group_series ''total_cases'' ''India'' (rows (ffill_key_metrics gap_frame)) ! 1 = Fin 5"
    by (simp add: isna_def)
  with m c xs show ?thesis by simp
qed

text \<open>
  C1 as stated speaks of the location's chronological sequence. The loop fills in table
  order and nothing sorts the table before it. In \<open>unsorted_frame\<close> the observation of day 2
  stands before the observation of day 1, which has no \<open>total_cases\<close>. In date order the
  column is \<open>[null, 5]\<close>: the day-1 observation comes before the first value, so the claim
  leaves it null. The loop gives it the 5 of day 2.
\<close>

theorem C1_counterexample:
  "chrono_series ''total_cases'' ''India'' (rows unsorted_frame) = [NaN, Fin 5] \<and>
   chrono_series ''total_cases'' ''India'' (rows (ffill_key_metrics unsorted_frame)) = [Fin 5, Fin 5] \<and>
   isna (chrono_series ''total_cases'' ''India'' (rows unsorted_frame) ! 0) \<and>
   \<not> isna (chrono_series ''total_cases'' ''India'' (rows (ffill_key_metrics unsorted_frame)) ! 0)"
proof -
  have before: "chrono_series ''total_cases'' ''India'' (rows unsorted_frame) = [NaN, Fin 5]"
    by (simp add: chrono_series_def unsorted_frame_def group_rows_def cells_def)
  have after: "chrono_series ''total_cases'' ''India'' (rows (ffill_key_metrics unsorted_frame))
      = [Fin 5, Fin 5]"
    by code_simp
  show ?thesis
    unfolding before after by (simp add: isna_def)
qed

subsection \<open>C2: death rate and case fatality rate on a zero denominator\<close>

text \<open>
  C2 as stated: the two derived columns are null whenever \<open>total_cases\<close> is null or zero.
  The notebook divides the two columns with no guard, and float division by zero yields an
  infinity, which is not null. In \<open>zero_cases_frame\<close> the one observation has 3 deaths and
  0 cases: both \<open>death_rate\<close> and \<open>cfr\<close> are \<open>+inf\<close>.
\<close>

theorem C2_counterexample:
  "getcol ''total_cases'' zero_cases_frame = Inr [Fin 0] \<and>
   column_of ''death_rate'' (add_death_rate zero_cases_frame) = Inr [PInf] \<and>
   column_of ''cfr'' (add_cfr zero_cases_frame) = Inr [PInf] \<and>
   \<not> isna PInf"
  by (simp add: column_of_def add_death_rate_def add_cfr_def add_ratio_column_def and_then_def
      getcol_def assign_def zero_cases_frame_def cells_def set_num_def ratio_pct_def isna_def)

text \<open>
  C2, amended. For either column and every observation, the stored value is
  \<open>total_deaths / total_cases * 100\<close> in float arithmetic. It is null exactly when
  \<open>total_cases\<close> is null, \<open>total_deaths\<close> is null, both are zero, or both are infinite. When
  \<open>total_cases\<close> is zero and \<open>total_deaths\<close> is a number other than zero, the value is an
  infinity, not null.
\<close>

theorem C2_rates_null_iff:
  assumes "add = add_death_rate \<and> c = ''death_rate'' \<or> add = add_cfr \<and> c = ''cfr''"
    and "add f = Inr f'" and "i < length (rows f)"
  shows "num (rows f' ! i) c =
           ratio_pct (num (rows f ! i) ''total_deaths'') (num (rows f ! i) ''total_cases'') \<and>
         (isna (num (rows f' ! i) c) \<longleftrightarrow>
            isna (num (rows f ! i) ''total_cases'') \<or> isna (num (rows f ! i) ''total_deaths'') \<or>
            (num (rows f ! i) ''total_deaths'' = Fin 0 \<and> num (rows f ! i) ''total_cases'' = Fin 0) \<or>
            (isinf (num (rows f ! i) ''total_deaths'') \<and> isinf (num (rows f ! i) ''total_cases''))) \<and>
         (num (rows f ! i) ''total_cases'' = Fin 0 \<and> \<not> isna (num (rows f ! i) ''total_deaths'') \<and>
            num (rows f ! i) ''total_deaths'' \<noteq> Fin 0 \<longrightarrow> isinf (num (rows f' ! i) c))"
proof -
  from assms(1,2) have "add_ratio_column c ''total_deaths'' ''total_cases'' f = Inr f'"
    by (auto simp: add_death_rate_def add_cfr_def)
  then have eq: "num (rows f' ! i) c =
      ratio_pct (num (rows f ! i) ''total_deaths'') (num (rows f ! i) ''total_cases'')"
    using assms(3) by (rule add_ratio_column_nth)
  show ?thesis
    unfolding eq using ratio_pct_zero_denominator ratio_pct_isna by auto
qed

theorem C2_rates_null_iff_witness:
  "add_cfr zero_cases_frame = Inr (assign ''cfr'' [PInf] zero_cases_frame) \<and>
   num (rows zero_cases_frame ! 0) ''total_cases'' = Fin 0 \<and>
   isinf (num (rows (assign ''cfr'' [PInf] zero_cases_frame) ! 0) ''cfr'')"
proof -
  have run: "add_cfr zero_cases_frame = Inr (assign ''cfr'' [PInf] zero_cases_frame)"
    by (simp add: add_cfr_def add_ratio_column_def and_then_def getcol_def
        zero_cases_frame_def cells_def ratio_pct_def)
  have len: "0 < length (rows zero_cases_frame)"
    by (simp add: zero_cases_frame_def)
  have zero: "num (rows zero_cases_frame ! 0) ''total_cases'' = Fin 0"
    and deaths: "\<not> isna (num (rows zero_cases_frame ! 0) ''total_deaths'')"
      "num (rows zero_cases_frame ! 0) ''total_deaths'' \<noteq> Fin 0"
    by (simp_all add: zero_cases_frame_def cells_def isna_def)
  from C2_rates_null_iff [of add_cfr "''cfr''" zero_cases_frame
        "assign ''cfr'' [PInf] zero_cases_frame" 0, OF _ run len]
  have "num (rows zero_cases_frame ! 0) ''total_cases'' = Fin 0 \<and>
        \<not> isna (num (rows zero_cases_frame ! 0) ''total_deaths'') \<and>
        num (rows zero_cases_frame ! 0) ''total_deaths'' \<noteq> Fin 0 \<longrightarrow>
        isinf (num (rows (assign ''cfr'' [PInf] zero_cases_frame) ! 0) ''cfr'')"
    by blast
  with zero deaths run show ?thesis by blast
qed

subsection \<open>C3: the latest snapshot\<close>

text \<open>
  C3 as stated: every value of a location's snapshot row comes from its row of maximum
  date. \<^verbatim>\<open>GroupBy.last\<close> takes the last non-null entry of each column on its own. In
  \<open>stale_frame\<close> India's day 2 has no \<open>total_cases_per_million\<close>: after a full run the
  snapshot row of India is dated day 2 and holds the \<open>total_cases\<close> of day 2 next to the
  \<open>total_cases_per_million\<close> of day 1, a combination no row of the table has.
\<close>

theorem C3_counterexample:
  "table_of filtered_df [''total_cases'', ''total_cases_per_million''] (run renders_fine stale_frame)
     = Inr [(''India'', 1, [Fin 10, Fin 7]), (''India'', 2, [Fin 20, NaN])] \<and>
   table_of latest_data [''total_cases'', ''total_cases_per_million''] (run renders_fine stale_frame)
     = Inr [(''India'', 2, [Fin 20, Fin 7])] \<and>
   [Fin 20, Fin 7] \<noteq> [Fin 20, NaN] \<and> [Fin 20, Fin 7] \<noteq> [Fin 10, Fin 7]"
proof -
  have a: "table_of filtered_df [''total_cases'', ''total_cases_per_million'']
      (run renders_fine stale_frame)
      = Inr [(''India'', 1, [Fin 10, Fin 7]), (''India'', 2, [Fin 20, NaN])]"
    by code_simp
  have b: "table_of latest_data [''total_cases'', ''total_cases_per_million'']
      (run renders_fine stale_frame) = Inr [(''India'', 2, [Fin 20, Fin 7])]"
    by code_simp
  show ?thesis
    unfolding a b by simp
qed

text \<open>
  C3, amended. In a table with every (date, location) pair at most once (as every table
  past the first pivot is), the snapshot has exactly one row per location of the table,
  and for each snapshot row \<open>s\<close>: every column holds the last non-null value of that column
  among the location's rows in date order; and if \<open>r\<close> is the location's row of maximum
  date, then \<open>s\<close> has the date of \<open>r\<close> and agrees with \<open>r\<close> on every column where \<open>r\<close> is
  not null.
\<close>

theorem C3_latest_snapshot:
  assumes "distinct (map row_key (rows f))"
  shows "location ` set (rows (latest f)) = location ` set (rows f) \<and>
    distinct (map location (rows (latest f))) \<and>
    (\<forall>s\<in>set (rows (latest f)).
       (\<forall>c. num s c = last_valid (chrono_series c (location s) (rows f))) \<and>
       (\<forall>r\<in>set (rows f).
          location r = location s \<and>
          (\<forall>r'\<in>set (rows f). location r' = location s \<longrightarrow> date r' \<le> date r) \<longrightarrow>
          date s = date r \<and>
          (\<forall>c. \<not> isna (num r c) \<longrightarrow> num s c = num r c) \<and>
          (iso_code r \<noteq> None \<longrightarrow> iso_code s = iso_code r)))"
proof (intro conjI ballI allI impI)
  show "location ` set (rows (latest f)) = location ` set (rows f)"
    by (rule locations_latest)
  show "distinct (map location (rows (latest f)))"
    by (rule distinct_locations_latest)
next
  fix s c assume "s \<in> set (rows (latest f))"
  then have s: "s = last_of_group (location s) (sort_values_date (rows f))"
    by (auto simp: rows_latest)
  show "num s c = last_valid (chrono_series c (location s) (rows f))"
    by (subst s) (rule num_last_of_group)
next
  fix s r assume "s \<in> set (rows (latest f))" and r: "r \<in> set (rows f)"
    and top: "location r = location s \<and>
      (\<forall>r'\<in>set (rows f). location r' = location s \<longrightarrow> date r' \<le> date r)"
  then have s: "s = last_of_group (location r) (sort_values_date (rows f))"
    by (auto simp: rows_latest)
  have top': "\<forall>r'\<in>set (rows f). location r' = location r \<longrightarrow> date r' \<le> date r"
    using top by simp
  show "date s = date r"
    unfolding s using assms r top' by (rule last_of_group_latest_row)
  show "num s c = num r c" if "\<not> isna (num r c)" for c
    unfolding s using assms r top' that by (rule last_of_group_latest_row)
  show "iso_code s = iso_code r" if "iso_code r \<noteq> None"
    unfolding s using assms r top' that by (rule last_of_group_latest_row)
qed

text \<open>In \<open>gap_frame\<close> India's last row (day 2) has a population but no \<open>total_cases\<close>:
  the snapshot takes the population from it and \<open>total_cases\<close> from day 1.\<close>

theorem C3_latest_snapshot_witness:
  "distinct (map row_key (rows gap_frame)) \<and>
   location (rows (latest gap_frame) ! 0) = ''India'' \<and>
   date (rows (latest gap_frame) ! 0) = 2 \<and>
   num (rows (latest gap_frame) ! 0) ''population'' = Fin 100 \<and>
   chrono_series ''total_cases'' ''India'' (rows gap_frame) = [Fin 5, NaN] \<and>
   num (rows (latest gap_frame) ! 0) ''total_cases'' = Fin 5"
proof -
  let ?s = "rows (latest gap_frame) ! 0"
  let ?r = "rows gap_frame ! 2"
  have d: "distinct (map row_key (rows gap_frame))"
    by (simp add: gap_frame_def row_key_def)
  have len: "length (rows (latest gap_frame)) = 2"
    by code_simp
  have s: "?s \<in> set (rows (latest gap_frame))"
    by (rule nth_mem) (simp add: len)
  have loc: "location ?s = ''India''"
    by code_simp
  have r: "?r \<in> set (rows gap_frame)"
    by (simp add: gap_frame_def)
  have top: "location ?r = location ?s \<and>
      (\<forall>r'\<in>set (rows gap_frame). location r' = location ?s \<longrightarrow> date r' \<le> date ?r)"
    unfolding loc by (simp add: gap_frame_def)
  have pop: "\<not> isna (num ?r ''population'')"
    by (simp add: gap_frame_def cells_def isna_def)
  have chrono: "chrono_series ''total_cases'' ''India'' (rows gap_frame) = [Fin 5, NaN]"
    by (simp add: chrono_series_def group_rows_def gap_frame_def cells_def)
  note all = C3_latest_snapshot [OF d]
  from all s have "num ?s ''total_cases'' = last_valid (chrono_series ''total_cases'' (location ?s) (rows gap_frame))"
    by blast
  then have tc: "num ?s ''total_cases'' = Fin 5"
    unfolding loc chrono by (simp add: last_valid_def isna_def)
  from all s r top have "date ?s = date ?r \<and> (\<forall>c. \<not> isna (num ?r c) \<longrightarrow> num ?s c = num ?r c)"
    by blast
  with pop have "date ?s = 2 \<and> num ?s ''population'' = Fin 100"
    by (simp add: gap_frame_def cells_def)
  with d loc chrono tc show ?thesis by blast
qed

subsection \<open>C4: smoothed new cases\<close>




subsection \<open>C5: aggregate locations in country-level tables\<close>

text \<open>
  C5. The country-level table \<open>country_df\<close> holds no aggregate location (lemma
  \<open>run_country_level_tables\<close>). But the notebook never reads it: \<open>latest_global_data\<close>, the table behind both
  choropleth maps, is computed from \<open>df\<close> and keeps every location of it. With the row of
  \<open>World\<close> in \<open>tie_frame\<close>, the snapshot for the maps has a row for \<open>World\<close>.
\<close>

theorem C5_latest_global_data_keeps_aggregates:
  "table_of country_df [] (run renders_fine tie_frame)
     = Inr [(''India'', 1, []), (''Kenya'', 1, [])] \<and>
   table_of latest_global_data [''total_cases_per_million''] (run renders_fine tie_frame)
     = Inr [(''India'', 1, [Fin 7]), (''Kenya'', 1, [Fin 8]), (''World'', 1, [Fin 9])] \<and>
   ''World'' \<in> set continents"
proof -
  have a: "table_of country_df [] (run renders_fine tie_frame)
     = Inr [(''India'', 1, []), (''Kenya'', 1, [])]"
    by code_simp
  have b: "table_of latest_global_data [''total_cases_per_million''] (run renders_fine tie_frame)
     = Inr [(''India'', 1, [Fin 7]), (''Kenya'', 1, [Fin 8]), (''World'', 1, [Fin 9])]"
    by code_simp
  show ?thesis
    unfolding a b by (simp add: continents_def)
qed

subsection \<open>C6: the top-5 tables\<close>

text \<open>
  C6, amended. In a run that finishes, each of the three tables is the top-5 table of the
  snapshot for its metric; it has at most 5 rows, its locations are countries of interest,
  and its values are in descending order with nulls last, equal values side by side. It is
  strictly descending when its values are distinct and none is null.
\<close>

theorem C6_top5_tables:
  assumes "run choropleth df = Inr s"
  shows "latest_data s = latest (filtered_df s) \<and>
    top5 ''total_cases'' (latest_data s) = Inr (top_cases s) \<and>
    top5 ''total_deaths'' (latest_data s) = Inr (top_deaths s) \<and>
    top5 ''pct_vaccinated'' (latest_data s) = Inr (top_vax s) \<and>
    (\<forall>t\<in>{top_cases s, top_deaths s, top_vax s}.
       length t \<le> 5 \<and> descending (map snd t) \<and> fst ` set t \<subseteq> set countries_of_interest \<and>
       (distinct (map snd t) \<and> (\<forall>v\<in>set (map snd t). \<not> isna v) \<longrightarrow>
          strictly_descending (map snd t)))"
proof -
  from run_Inr [OF assms] obtain f4 out_a f5 ld tc td tv out_c where
    a: "sections_3_to_5 df = Inr (f4, out_a)"
    and b: "sections_7_to_8 f4 = Inr (f5, ld, tc, td, tv, out_c)"
    and s: "filtered_df s = f5" "latest_data s = ld" "top_cases s = tc" "top_deaths s = td"
      "top_vax s = tv"
    by force
  note b' = sections_7_to_8_Inr [OF b]
  from b' have "add_ratio_column ''cfr'' ''total_deaths'' ''total_cases'' f4 = Inr f5"
    by (simp add: add_cfr_def)
  then have "map location (rows f5) = map location (rows f4)"
    by (rule add_ratio_column_locations)
  then have "set (map location (rows f5)) = set (map location (rows f4))"
    by simp
  then have "location ` set (rows f5) \<subseteq> set countries_of_interest"
    using sections_3_to_5_locations [OF a] by simp
  moreover from b' have "ld = latest f5" by blast
  ultimately have locs: "location ` set (rows ld) \<subseteq> set countries_of_interest"
    by (simp add: locations_latest)
  from b' have ld: "ld = latest f5" and t1: "top5 ''total_cases'' ld = Inr tc"
    and t2: "top5 ''total_deaths'' ld = Inr td" and t3: "top5 ''pct_vaccinated'' ld = Inr tv"
    by blast+
  show ?thesis
    unfolding s
    using ld t1 t2 t3 top5_table [OF t1 locs] top5_table [OF t2 locs] top5_table [OF t3 locs]
    by blast
qed

text \<open>
  C6 as stated asks for a strictly descending table. In \<open>tie_frame\<close> India and Kenya both end
  with 5 total cases and 1 death: the tables of cases and of deaths list two equal values.
\<close>

theorem C6_counterexample:
  "tops_of (run renders_fine tie_frame)
     = Inr ([(''India'', Fin 5), (''Kenya'', Fin 5)],
            [(''India'', Fin 1), (''Kenya'', Fin 1)],
            [(''Kenya'', Fin 150), (''India'', Fin 10)]) \<and>
   \<not> strictly_descending (map snd [(''India'', Fin 5), (''Kenya'', Fin 5)]) \<and>
   \<not> strictly_descending (map snd [(''India'', Fin 1), (''Kenya'', Fin 1)])"
proof -
  have "tops_of (run renders_fine tie_frame)
     = Inr ([(''India'', Fin 5), (''Kenya'', Fin 5)],
            [(''India'', Fin 1), (''Kenya'', Fin 1)],
            [(''Kenya'', Fin 150), (''India'', Fin 10)])"
    by code_simp
  then show ?thesis
    by (simp add: strictly_descending_def)
qed

text \<open>The vaccination table of the same run: Kenya's 150 before India's 10.\<close>

theorem C6_top5_tables_witness:
  "\<exists>s. run renders_fine tie_frame = Inr s \<and>
       top_vax s = [(''Kenya'', Fin 150), (''India'', Fin 10)] \<and>
       length (top_vax s) \<le> 5 \<and> descending (map snd (top_vax s)) \<and>
       strictly_descending (map snd (top_vax s)) \<and>
       fst ` set (top_vax s) \<subseteq> set countries_of_interest"
proof -
  have tops: "tops_of (run renders_fine tie_frame)
     = Inr ([(''India'', Fin 5), (''Kenya'', Fin 5)],
            [(''India'', Fin 1), (''Kenya'', Fin 1)],
            [(''Kenya'', Fin 150), (''India'', Fin 10)])"
    by code_simp
  then obtain s where s: "run renders_fine tie_frame = Inr s"
    by (cases "run renders_fine tie_frame") (simp_all add: tops_of_def)
  with tops have tv: "top_vax s = [(''Kenya'', Fin 150), (''India'', Fin 10)]"
    by (simp add: tops_of_def)
  have ok: "distinct (map snd (top_vax s)) \<and> (\<forall>v\<in>set (map snd (top_vax s)). \<not> isna v)"
    by (simp add: tv isna_def)
  from C6_top5_tables [OF s] have "length (top_vax s) \<le> 5 \<and> descending (map snd (top_vax s)) \<and>
      fst ` set (top_vax s) \<subseteq> set countries_of_interest \<and>
      (distinct (map snd (top_vax s)) \<and> (\<forall>v\<in>set (map snd (top_vax s)). \<not> isna v) \<longrightarrow>
          strictly_descending (map snd (top_vax s)))"
    by blast
  with ok s tv show ?thesis by blast
qed

subsection \<open>C7: vaccination percentage\<close>




subsection \<open>C8: a map that fails to render\<close>



subsection \<open>C9: what forward fill leaves unchanged\<close>

text \<open>
  C9. The cleaning loop keeps the column list, the number of rows and, row by row, the
  location, the date and the ISO code; every value that was not null is unchanged, and so
  is every value of a column outside the key metrics.
\<close>

theorem C9_forward_fill_frame:
  "columns (ffill_key_metrics f) = columns f \<and>
   length (rows (ffill_key_metrics f)) = length (rows f) \<and>
   (\<forall>i<length (rows f).
      location (rows (ffill_key_metrics f) ! i) = location (rows f ! i) \<and>
      date (rows (ffill_key_metrics f) ! i) = date (rows f ! i) \<and>
      iso_code (rows (ffill_key_metrics f) ! i) = iso_code (rows f ! i) \<and>
      (\<forall>c. c \<notin> set key_metrics \<or> \<not> isna (num (rows f ! i) c) \<longrightarrow>
         num (rows (ffill_key_metrics f) ! i) c = num (rows f ! i) c))"
  unfolding ffill_key_metrics_def
  using fold_ffill_metric_frame fold_ffill_metric_key fold_ffill_metric_keeps
  by (intro conjI allI impI) simp_all

text \<open>In \<open>gap_frame\<close> the first row keeps its \<open>total_cases\<close>, and the third row, whose
  \<open>total_cases\<close> is filled, keeps its population and its key.\<close>

theorem C9_forward_fill_frame_witness:
  "num (rows (ffill_key_metrics gap_frame) ! 0) ''total_cases'' = Fin 5 \<and>
   num (rows (ffill_key_metrics gap_frame) ! 2) ''population'' = Fin 100 \<and>
   location (rows (ffill_key_metrics gap_frame) ! 2) = ''India'' \<and>
   date (rows (ffill_key_metrics gap_frame) ! 2) = 2 \<and>
   length (rows (ffill_key_metrics gap_frame)) = 4"
proof -
  note all = C9_forward_fill_frame [of gap_frame]
  have len: "length (rows gap_frame) = 4"
    by (simp add: gap_frame_def)
  from all have rowwise: "\<forall>i<4.
      location (rows (ffill_key_metrics gap_frame) ! i) = location (rows gap_frame ! i) \<and>
      date (rows (ffill_key_metrics gap_frame) ! i) = date (rows gap_frame ! i) \<and>
      iso_code (rows (ffill_key_metrics gap_frame) ! i) = iso_code (rows gap_frame ! i) \<and>
      (\<forall>c. c \<notin> set key_metrics \<or> \<not> isna (num (rows gap_frame ! i) c) \<longrightarrow>
         num (rows (ffill_key_metrics gap_frame) ! i) c = num (rows gap_frame ! i) c)"
    unfolding len by blast
  have r0: "num (rows (ffill_key_metrics gap_frame) ! 0) ''total_cases'' = Fin 5"
    using rowwise [rule_format, of 0, THEN conjunct2, THEN conjunct2, THEN conjunct2,
        rule_format, of "''total_cases''"]
    by (simp add: gap_frame_def cells_def isna_def)
  have r2: "num (rows (ffill_key_metrics gap_frame) ! 2) ''population'' = Fin 100"
    using rowwise [rule_format, of 2, THEN conjunct2, THEN conjunct2, THEN conjunct2,
        rule_format, of "''population''"]
    by (simp add: gap_frame_def cells_def key_metrics_def)
  have k2: "location (rows (ffill_key_metrics gap_frame) ! 2) = ''India'' \<and>
      date (rows (ffill_key_metrics gap_frame) ! 2) = 2"
    using rowwise [rule_format, of 2] by (simp add: gap_frame_def)
  from all len r0 r2 k2 show ?thesis by simp
qed

subsection \<open>C10: pivots and repeated observations\<close>

text \<open>
  C10. A pivot of a table in which a (date, location) pair occurs twice raises an error,
  and since the first pivot of the filtered table stands outside any \<^verbatim>\<open>try\<close>, the run
  aborts there (with \<^verbatim>\<open>ValueError\<close> when the table has \<open>total_cases\<close>). A pivot that
  returns has found every pair at most once: each row is the only row of its date and
  location, its cell holds that row's value, and a cell with no row is null.
\<close>

theorem C10_pivot_unique_cells:
  "(\<not> distinct (map row_key (rows f)) \<longrightarrow> (\<exists>e. pivot c f = Inl e)) \<and>
   (\<not> distinct (map row_key (rows (isin countries_of_interest df))) \<longrightarrow>
      (\<exists>e. run choropleth df = Inl e) \<and>
      (''total_cases'' \<in> set (columns df) \<longrightarrow>
         run choropleth df = Inl (ValueError ''Index contains duplicate entries, cannot reshape''))) \<and>
   (\<forall>p. pivot c f = Inr p \<longrightarrow>
      distinct (map row_key (rows f)) \<and>
      (\<forall>r\<in>set (rows f).
         filter (\<lambda>r'. date r' = date r \<and> location r' = location r) (rows f) = [r] \<and>
         p_cell p (date r) (location r) = num r c) \<and>
      (\<forall>d g. (d, g) \<notin> row_key ` set (rows f) \<longrightarrow> p_cell p d g = NaN))"
proof (intro conjI impI allI ballI)
  assume "\<not> distinct (map row_key (rows f))"
  then show "\<exists>e. pivot c f = Inl e"
    by (simp add: pivot_duplicates)
next
  assume dup: "\<not> distinct (map row_key (rows (isin countries_of_interest df)))"
  show "\<exists>e. run choropleth df = Inl e"
    by (simp add: run_def sections_3_to_5_duplicates [OF dup])
  assume "''total_cases'' \<in> set (columns df)"
  then show "run choropleth df = Inl (ValueError ''Index contains duplicate entries, cannot reshape'')"
    by (simp add: run_def sections_3_to_5_duplicates [OF dup])
next
  fix p assume p: "pivot c f = Inr p"
  then show d: "distinct (map row_key (rows f))"
    by (rule pivot_Inr_distinct)
  fix r assume r: "r \<in> set (rows f)"
  have "filter (\<lambda>r'. row_key r' = row_key r) (rows f) = [r]"
    using d r by (rule filter_distinct_key)
  then show "filter (\<lambda>r'. date r' = date r \<and> location r' = location r) (rows f) = [r]"
    by (simp add: row_key_def)
  show "p_cell p (date r) (location r) = num r c"
    using p r by (rule pivot_cell_row)
next
  fix p d g assume "pivot c f = Inr p" and "(d, g) \<notin> row_key ` set (rows f)"
  then show "p_cell p d g = NaN"
    by (rule pivot_cell_empty)
qed

text \<open>\<open>duplicate_frame\<close> lists India's day 1 twice; \<open>gap_frame\<close> has every pair once.\<close>

theorem C10_pivot_unique_cells_witness:
  "(\<exists>e. pivot ''total_cases'' duplicate_frame = Inl e) \<and>
   run no_network duplicate_frame = Inl (ValueError ''Index contains duplicate entries, cannot reshape'') \<and>
   (\<exists>p. pivot ''total_cases'' gap_frame = Inr p \<and> p_cell p 1 ''India'' = Fin 5 \<and>
        p_cell p 1 ''Kenya'' = NaN \<and> p_cell p 3 ''India'' = NaN)"
proof -
  have dup: "\<not> distinct (map row_key (rows duplicate_frame))"
    by (simp add: duplicate_frame_def row_key_def)
  have dup': "\<not> distinct (map row_key (rows (isin countries_of_interest duplicate_frame)))"
    by (simp add: duplicate_frame_def row_key_def isin_def countries_of_interest_def)
  have col: "''total_cases'' \<in> set (columns duplicate_frame)"
    by (simp add: duplicate_frame_def)
  obtain p where p: "pivot ''total_cases'' gap_frame = Inr p"
    by (simp add: pivot_def gap_frame_def row_key_def)
  note one = C10_pivot_unique_cells [of duplicate_frame "''total_cases''" duplicate_frame no_network]
  note two = C10_pivot_unique_cells [of gap_frame "''total_cases''" duplicate_frame no_network]
  from two p have cells: "\<forall>r\<in>set (rows gap_frame). p_cell p (date r) (location r) = num r ''total_cases''"
    and gaps: "\<forall>d g. (d, g) \<notin> row_key ` set (rows gap_frame) \<longrightarrow> p_cell p d g = NaN"
    by blast+
  have "p_cell p 1 ''India'' = Fin 5" "p_cell p 1 ''Kenya'' = NaN"
    using cells by (simp_all add: gap_frame_def cells_def)
  moreover have "p_cell p 3 ''India'' = NaN"
    using gaps [rule_format, of 3 "''India''"] by (simp add: gap_frame_def row_key_def)
  ultimately show ?thesis
    using one dup dup' col p by blast
qed

end
